theory Spec2Isabelle
  imports Complex_Main "HOL-Library.AList"
begin

section \<open>Values, errors and tile addresses\<close>

text \<open>
  Exceptions of the Python source are values of \<open>error\<close>; a function that can raise
  returns \<open>error + 'a\<close> with \<open>Inl\<close> for the raised exception.
\<close>

datatype error =
    ValueError
  | TypeError
  | KeyError
  | AttributeError
  | MapcheteNodataTile
  | MapcheteProcessOutputError
  | JobCancelledError
  | OtherException string

text \<open>Bounds are \<open>(left, bottom, right, top)\<close>.\<close>

type_synonym bounds = "real \<times> real \<times> real \<times> real"

text \<open>
  A tile pyramid is identified by its grid, metatiling and pixel buffer; a buffered tile
  is an address \<open>(zoom, row, col)\<close> in one pyramid. Python compares and hashes buffered
  tiles by these four components, as record equality does.
\<close>

record pyramid =
  grid :: string
  metatiling :: nat
  pixelbuffer :: nat

record tile =
  zoom :: nat
  row :: nat
  col :: nat
  buffered_tp :: pyramid

text \<open>
  The tile-pyramid mathematics is an external collaborator (the tilematrix package); the
  model takes its operations as a parameter.
\<close>

record tilemath =
  tm_bounds :: "tile \<Rightarrow> bounds"
  tm_tiles_from_bounds :: "pyramid \<Rightarrow> bounds \<Rightarrow> nat \<Rightarrow> tile list"
  tm_intersecting :: "pyramid \<Rightarrow> tile \<Rightarrow> tile list"
  get_children :: "tile \<Rightarrow> tile list"
  get_parent :: "tile \<Rightarrow> tile"

text \<open>
  Process data is opaque to the engine. The raster operations of \<open>mapchete.io.raster\<close>
  and the reads of the output reader are kept as constructors, so that a result shows
  which tiles were read and how they were combined.
\<close>

datatype pyval =
    PNone
  | PStr string
  | PArray string
  | Stored tile
  | Extracted pyval tile tile
  | Mosaic "(tile \<times> pyval) list" int
  | Resampled pyval "tile option" tile string int

text \<open>
  \<open>Stored t\<close> is \<open>output_reader.read(t)\<close>;
  \<open>Extracted a src out\<close> is \<open>extract_from_array(in_raster=a, in_affine=src.affine, out_tile=out)\<close>;
  \<open>Mosaic tiles nodata\<close> is \<open>create_mosaic(tiles, nodata=nodata)\<close>;
  \<open>Resampled a src out method nodata\<close> is
  \<open>resample_from_array(a, in_affine=src.affine, out_tile=out, resampling=method, nodata=nodata)\<close>.
\<close>

record task_info =
  ti_id :: "string option"
  ti_output :: pyval
  ti_processed :: bool
  ti_tile :: "tile option"

type_synonym params = "(string \<times> string) list"

record input_obj =
  input_key :: string
  preprocessing_tasks_results :: "(string \<times> pyval) list"

type_synonym inputs = "(string \<times> input_obj) list"

text \<open>The context object \<open>MapcheteProcess\<close> handed to the user process.\<close>

record process_ctx =
  pc_tile :: tile
  pc_params :: params
  pc_input :: inputs
  pc_output_params :: params

type_synonym process_func = "process_ctx \<Rightarrow> error + pyval"

record baselevels =
  bl_zooms :: "nat list"
  bl_lower :: string
  bl_higher :: string
  bl_tile_pyramid :: pyramid

record output_reader =
  rd_pyramid :: pyramid
  rd_nodata :: int
  rd_output_params :: params

text \<open>
  The part of \<open>MapcheteConfig\<close> a tile task consumes. \<open>cfg_baselevels = None\<close> is the
  empty dictionary of a configuration without baselevels.
\<close>

record config =
  cfg_zoom_levels :: "nat list"
  cfg_baselevels :: "baselevels option"
  cfg_process :: process_func
  cfg_config_dir :: string
  cfg_mode :: string
  get_inputs_for_tile :: "tile \<Rightarrow> inputs"
  get_process_func_params :: "nat \<Rightarrow> params"
  cfg_output_reader :: output_reader

datatype func =
    Execute_task_wrapper
  | Execute_tile_task_wrapper
  | Func string

section \<open>Task\<close>

text \<open>
  The geometry library (shapely, \<open>to_shape\<close>, \<open>validate_bounds\<close>) is outside the source
  tree and is a parameter. \<open>geom_truth\<close> is the truth value Python gives a geometry
  argument in \<open>if geometry\<close>; a bounds argument is a sequence, true when it is not empty.
\<close>

record 'g geo_lib =
  geom_truth :: "'g \<Rightarrow> bool"
  to_shape :: "'g \<Rightarrow> error + 'g"
  geom_bounds :: "'g \<Rightarrow> real list"
  validate_bounds :: "real list \<Rightarrow> error + bounds"
  box :: "bounds \<Rightarrow> 'g"

text \<open>
  \<open>oid\<close> is the identity of the Python object: \<open>Task\<close> defines neither \<open>__eq__\<close> nor
  \<open>__hash__\<close>, so a dictionary keyed by tasks is keyed by identity.
\<close>

record 'g task =
  oid :: nat
  task_id :: string
  func :: "func option"
  fargs :: "pyval list"
  fkwargs :: "(string \<times> pyval) list"
  dependencies :: "(string \<times> task_info) list"
  result_key_name :: string
  geometry :: "'g option"
  bounds :: "bounds option"

text \<open>\<open>x or default\<close> on an optional string: \<open>None\<close> and the empty string are false.\<close>

definition str_or :: "string option \<Rightarrow> string \<Rightarrow> string" where
  "str_or s d = (case s of None \<Rightarrow> d | Some v \<Rightarrow> if v = [] then d else v)"

definition list_or_empty :: "'a list option \<Rightarrow> 'a list" where
  "list_or_empty xs = (case xs of None \<Rightarrow> [] | Some v \<Rightarrow> v)"

text \<open>
  The truth tests of \<open>__init__\<close>: an argument counts as given when Python holds it true,
  so \<open>None\<close>, a geometry the library holds false and an empty bounds sequence all count
  as not given.
\<close>

definition given_geometry :: "'g geo_lib \<Rightarrow> 'g option \<Rightarrow> 'g option" where
  "given_geometry L g =
     (case g of None \<Rightarrow> None | Some x \<Rightarrow> if geom_truth L x then Some x else None)"

definition given_bounds :: "real list option \<Rightarrow> real list option" where
  "given_bounds b = (case b of None \<Rightarrow> None | Some x \<Rightarrow> if x \<noteq> [] then Some x else None)"

text \<open>
  \<open>Task.__init__\<close>. \<open>uuid\<close> is the value \<open>uuid4().hex\<close> yields, \<open>obj\<close> the identity of
  the new object.
\<close>

definition Task_init ::
  "'g geo_lib \<Rightarrow> string \<Rightarrow> nat \<Rightarrow> string option \<Rightarrow> func option \<Rightarrow> pyval list option \<Rightarrow>
   (string \<times> pyval) list option \<Rightarrow> (string \<times> task_info) list option \<Rightarrow> string option \<Rightarrow>
   'g option \<Rightarrow> real list option \<Rightarrow> error + 'g task" where
  "Task_init L uuid obj id_arg func_arg fargs_arg fkwargs_arg dependencies_arg rkn_arg
       geometry_arg bounds_arg =
    (let self_id = str_or id_arg uuid;
         self = \<lparr> oid = obj, task_id = self_id, func = func_arg,
                  fargs = list_or_empty fargs_arg, fkwargs = list_or_empty fkwargs_arg,
                  dependencies = list_or_empty dependencies_arg,
                  result_key_name = str_or rkn_arg (self_id @ ''_result''),
                  geometry = None, bounds = None \<rparr>
     in case (given_geometry L geometry_arg, given_bounds bounds_arg) of
          (Some g, Some bl) \<Rightarrow> Inl ValueError
        | (Some g, None) \<Rightarrow>
            (case to_shape L g of
               Inl e \<Rightarrow> Inl e
             | Inr s \<Rightarrow>
                 (case validate_bounds L (geom_bounds L s) of
                    Inl e \<Rightarrow> Inl e
                  | Inr b \<Rightarrow> Inr (self\<lparr> geometry := Some s, bounds := Some b \<rparr>)))
        | (None, Some bl) \<Rightarrow>
            (case validate_bounds L bl of
               Inl e \<Rightarrow> Inl e
             | Inr b \<Rightarrow> Inr (self\<lparr> bounds := Some b, geometry := Some (box L b) \<rparr>))
        | (None, None) \<Rightarrow> Inr self)"

section \<open>TileTask\<close>

record 'g tile_task = "'g task" +
  tile :: tile
  skip :: bool
  config_zoom_levels :: "nat list option"
  config_baselevels :: "baselevels option"
  process :: "process_func option"
  config_dir :: "string option"
  input :: inputs
  process_func_params :: params
  output_params :: params
  mode :: "string option"
  output_reader :: "output_reader option"

text \<open>
  \<open>TileTask.__init__\<close> for a tile given as a buffered tile. \<open>default_id\<close> is
  \<open>default_tile_task_id(tile)\<close> and \<open>bbox\<close> is \<open>tile.bbox\<close>, both computed outside the
  source tree. A task that is not skipped reads its configuration, so a missing
  configuration raises there. \<open>zoom in config_baselevels\<close> tests an integer against the
  string keys of the baselevels dictionary and is false. The constructor of \<open>Task\<close> runs
  last with only \<open>id\<close> and \<open>geometry\<close>, so it leaves \<open>func\<close> unset and the dependencies
  empty whatever the arguments \<open>func\<close> and \<open>dependencies\<close> were.
\<close>

definition TileTask_init ::
  "'g geo_lib \<Rightarrow> string \<Rightarrow> nat \<Rightarrow> string \<Rightarrow> 'g \<Rightarrow> tile \<Rightarrow> string option \<Rightarrow> config option \<Rightarrow>
   func option \<Rightarrow> bool \<Rightarrow> error + 'g tile_task" where
  "TileTask_init L uuid obj default_id bbox tile_arg id_arg config_arg func_arg skip_arg =
    (let self_id = str_or id_arg default_id
     in case (if skip_arg then Inr None
              else case config_arg of None \<Rightarrow> Inl AttributeError | Some c \<Rightarrow> Inr (Some c)) of
          Inl e \<Rightarrow> Inl e
        | Inr cfg \<Rightarrow>
            (case Task_init L uuid obj (Some self_id) None None None None None (Some bbox) None of
               Inl e \<Rightarrow> Inl e
             | Inr base \<Rightarrow>
                 Inr (task.extend base
                   (case cfg of
                      None \<Rightarrow>
                        tile_task.fields tile_arg True None None None None [] [] [] None None
                    | Some c \<Rightarrow>
                        (let unbound = (zoom tile_arg \<notin> set (cfg_zoom_levels c) \<or> False)
                         in tile_task.fields tile_arg False
                              (Some (cfg_zoom_levels c)) (cfg_baselevels c)
                              (Some (cfg_process c)) (Some (cfg_config_dir c))
                              (if unbound then [] else get_inputs_for_tile c tile_arg)
                              (if unbound then []
                               else get_process_func_params c (zoom tile_arg))
                              (if unbound then []
                               else rd_output_params (cfg_output_reader c))
                              (Some (cfg_mode c))
                              (case cfg_baselevels c of
                                 None \<Rightarrow> None
                               | Some _ \<Rightarrow> Some (cfg_output_reader c)))))))"

subsection \<open>Attaching preprocessing results\<close>

text \<open>\<open>s.split(sep)\<close> for a one-character separator, and \<open>sep.join(parts)\<close>.\<close>

fun split_on :: "char \<Rightarrow> string \<Rightarrow> string list" where
  "split_on c [] = [[]]"
| "split_on c (x # xs) =
     (if x = c then [] # split_on c xs
      else (case split_on c xs of
              [] \<Rightarrow> [[x]]
            | w # ws \<Rightarrow> (x # w) # ws))"

fun join :: "string \<Rightarrow> string list \<Rightarrow> string" where
  "join sep [] = []"
| "join sep [w] = w"
| "join sep (w # v # ws) = w @ sep @ join sep (v # ws)"

definition startswith :: "string \<Rightarrow> string \<Rightarrow> bool" where
  "startswith s p = (take (length p) s = p)"

definition set_preprocessing_task_result :: "string \<Rightarrow> pyval \<Rightarrow> input_obj \<Rightarrow> input_obj" where
  "set_preprocessing_task_result task_key result inp =
     inp\<lparr> preprocessing_tasks_results :=
            AList.update task_key result (preprocessing_tasks_results inp) \<rparr>"

text \<open>
  The loop of \<open>_execute\<close> over \<open>dependencies.items()\<close>: every dependency that is not a
  tile task is split at its first colon and handed to each input with that key.
\<close>

fun attach_dependencies :: "(string \<times> task_info) list \<Rightarrow> inputs \<Rightarrow> error + inputs" where
  "attach_dependencies [] inps = Inr inps"
| "attach_dependencies ((task_key, task_result) # rest) inps =
     (if \<not> startswith task_key ''tile_task'' then
        (let inp_key = hd (split_on CHR '':'' task_key);
             key = join '':'' (tl (split_on CHR '':'' task_key))
         in if key = [] then Inl KeyError
            else attach_dependencies rest
                   (map (\<lambda>(name, inp).
                           (name, if input_key inp = inp_key
                                  then set_preprocessing_task_result key (ti_output task_result) inp
                                  else inp))
                        inps))
      else attach_dependencies rest inps)"

subsection \<open>Baselevel interpolation\<close>

datatype InterpolateFrom = lower | higher

text \<open>
  The first loop of the \<open>lower\<close> branch: for every dependency, the part of its output
  that falls on each intersecting output tile. A dependency without a tile makes
  \<open>intersecting\<close> raise.
\<close>

fun src_tiles_from_dependencies ::
  "tilemath \<Rightarrow> pyramid \<Rightarrow> task_info list \<Rightarrow> (tile \<times> pyval) list \<Rightarrow> error + (tile \<times> pyval) list" where
  "src_tiles_from_dependencies M p [] src_tiles = Inr src_tiles"
| "src_tiles_from_dependencies M p (info # rest) src_tiles =
     (case ti_tile info of
        None \<Rightarrow> Inl AttributeError
      | Some t \<Rightarrow>
          src_tiles_from_dependencies M p rest
            (fold (\<lambda>output_tile acc.
                     if ti_output info \<noteq> PNone
                     then AList.update output_tile (Extracted (ti_output info) t output_tile) acc
                     else acc)
                  (tm_intersecting M p t) src_tiles))"

text \<open>The second loop: every child tile not yet present is read from the output.\<close>

definition read_missing_children :: "tile list \<Rightarrow> (tile \<times> pyval) list \<Rightarrow> (tile \<times> pyval) list" where
  "read_missing_children child_tiles src_tiles =
     fold (\<lambda>child_tile acc.
             if child_tile \<in> fst ` set acc then acc
             else AList.update child_tile (Stored child_tile) acc)
          child_tiles src_tiles"

text \<open>
  The output tiles that intersect the process tile, seen in the baselevels pyramid, and
  the child tiles the \<open>lower\<close> branch enumerates from them.
\<close>

definition output_tiles :: "tilemath \<Rightarrow> output_reader \<Rightarrow> baselevels \<Rightarrow> tile \<Rightarrow> tile list" where
  "output_tiles M rd bl self_tile =
     (let t = self_tile\<lparr> buffered_tp := bl_tile_pyramid bl \<rparr>
      in if pixelbuffer (buffered_tp t) > pixelbuffer (rd_pyramid rd)
         then tm_tiles_from_bounds M (rd_pyramid rd) (tm_bounds M t) (zoom t)
         else tm_intersecting M (rd_pyramid rd) t)"

definition child_tiles :: "tilemath \<Rightarrow> output_reader \<Rightarrow> baselevels \<Rightarrow> tile \<Rightarrow> tile list" where
  "child_tiles M rd bl self_tile =
     (if pixelbuffer (rd_pyramid rd) \<noteq> 0
      then concat (map (\<lambda>output_tile.
             tm_tiles_from_bounds M (rd_pyramid rd) (tm_bounds M output_tile) (zoom output_tile + 1))
             (output_tiles M rd bl self_tile))
      else concat (map (get_children M) (output_tiles M rd bl self_tile)))"

text \<open>\<open>TileTask._interpolate_from_baselevel\<close>.\<close>

definition interpolate_from_baselevel ::
  "tilemath \<Rightarrow> 'g tile_task \<Rightarrow> baselevels \<Rightarrow> InterpolateFrom \<Rightarrow> (string \<times> task_info) list \<Rightarrow>
   error + pyval" where
  "interpolate_from_baselevel M self bl baselevel deps =
     (case output_reader self of
        None \<Rightarrow> Inl AttributeError
      | Some rd \<Rightarrow>
          (case baselevel of
             higher \<Rightarrow>
               (let parent_tile = get_parent M (tile self)
                in Inr (Resampled (Stored parent_tile) (Some parent_tile) (tile self)
                          (bl_higher bl) (rd_nodata rd)))
           | lower \<Rightarrow>
               (case src_tiles_from_dependencies M (rd_pyramid rd) (map snd deps) [] of
                  Inl e \<Rightarrow> Inl e
                | Inr src_tiles \<Rightarrow>
                    Inr (Resampled
                           (Mosaic (read_missing_children (child_tiles M rd bl (tile self)) src_tiles)
                              (rd_nodata rd))
                           None (tile self) (bl_lower bl) (rd_nodata rd)))))"

subsection \<open>Execution\<close>

text \<open>
  The result of running a tile task is the list of contexts with which the user process
  was called (empty when it was not called) and the value returned or exception raised.
\<close>

type_synonym 'a run = "process_ctx list \<times> (error + 'a)"

definition run_process :: "'g tile_task \<Rightarrow> (string \<times> task_info) list \<Rightarrow> pyval run" where
  "run_process self deps =
     (case attach_dependencies deps (input self) of
        Inl e \<Rightarrow> ([], Inl e)
      | Inr inps \<Rightarrow>
          (case process self of
             None \<Rightarrow> ([], Inl TypeError)
           | Some p \<Rightarrow>
               (let ctx = \<lparr> pc_tile = tile self, pc_params = process_func_params self,
                            pc_input = inps, pc_output_params = output_params self \<rparr>
                in ([ctx], p ctx))))"

text \<open>\<open>TileTask._execute\<close>; \<open>min\<close> and \<open>max\<close> of an empty sequence raise.\<close>

definition TileTask__execute ::
  "tilemath \<Rightarrow> 'g tile_task \<Rightarrow> (string \<times> task_info) list \<Rightarrow> pyval run" where
  "TileTask__execute M self deps =
     (case config_baselevels self of
        None \<Rightarrow> run_process self deps
      | Some bl \<Rightarrow>
          (if bl_zooms bl = [] then ([], Inl ValueError)
           else if zoom (tile self) < Min (set (bl_zooms bl))
             then ([], interpolate_from_baselevel M self bl lower deps)
           else if zoom (tile self) > Max (set (bl_zooms bl))
             then ([], interpolate_from_baselevel M self bl higher deps)
           else run_process self deps))"

definition mode_ok :: "string option \<Rightarrow> bool" where
  "mode_ok m = (case m of None \<Rightarrow> False
                | Some s \<Rightarrow> s \<in> set [''memory'', ''continue'', ''overwrite''])"

text \<open>\<open>TileTask.execute\<close>.\<close>

definition TileTask_execute ::
  "tilemath \<Rightarrow> 'g tile_task \<Rightarrow> (string \<times> task_info) list option \<Rightarrow> task_info run" where
  "TileTask_execute M self deps_arg =
     (if \<not> mode_ok (mode self) then ([], Inl ValueError)
      else case config_zoom_levels self of
             None \<Rightarrow> ([], Inl TypeError)
           | Some zls \<Rightarrow>
               (if zoom (tile self) \<notin> set zls then ([], Inl MapcheteNodataTile)
                else (case TileTask__execute M self (list_or_empty deps_arg) of
                        (calls, Inl e) \<Rightarrow> (calls, Inl e)
                      | (calls, Inr process_output) \<Rightarrow>
                          (if process_output = PStr ''empty'' then (calls, Inl MapcheteNodataTile)
                           else if process_output = PNone
                             then (calls, Inl MapcheteProcessOutputError)
                           else (calls, Inr \<lparr> ti_id = None, ti_output = process_output,
                                               ti_processed = True,
                                               ti_tile = Some (tile self) \<rparr>)))))"

text \<open>
  \<open>_execute_tile_task_wrapper\<close> returns either the task's result or the string
  \<open>"empty"\<close>.
\<close>

datatype wrapper_result = Info task_info | Empty_marker

definition execute_tile_task_wrapper ::
  "tilemath \<Rightarrow> 'g tile_task \<Rightarrow> (string \<times> task_info) list option \<Rightarrow> wrapper_result run" where
  "execute_tile_task_wrapper M t deps_arg =
     (case TileTask_execute M t deps_arg of
        (calls, Inr info) \<Rightarrow> (calls, Inr (Info info))
      | (calls, Inl e) \<Rightarrow>
          (if e = MapcheteNodataTile then (calls, Inr Empty_marker) else (calls, Inl e)))"

section \<open>Task batches\<close>

text \<open>
  An object that is a \<open>Task\<close>: a plain task (a preprocessing task) or a \<open>TileTask\<close>.
\<close>

datatype 'g any_task = PlainTask "'g task" | ATileTask "'g tile_task"

fun oid_of :: "'g any_task \<Rightarrow> nat" where
  "oid_of (PlainTask t) = oid t"
| "oid_of (ATileTask t) = oid t"

fun id_of :: "'g any_task \<Rightarrow> string" where
  "id_of (PlainTask t) = task_id t"
| "id_of (ATileTask t) = task_id t"

fun result_key_name_of :: "'g any_task \<Rightarrow> string" where
  "result_key_name_of (PlainTask t) = result_key_name t"
| "result_key_name_of (ATileTask t) = result_key_name t"

fun bounds_of :: "'g any_task \<Rightarrow> bounds option" where
  "bounds_of (PlainTask t) = bounds t"
| "bounds_of (ATileTask t) = bounds t"

text \<open>
  The argument of \<open>intersection\<close>, by the cases its \<open>isinstance\<close> tests tell apart: a
  task, a bounds tuple or list, or anything else.
\<close>

datatype 'g pyarg = ArgTask "'g any_task" | ArgBounds bounds | ArgOther

text \<open>
  \<open>TaskBatch\<close> keeps its tasks in an \<open>IndexedFeatures\<close> container, which is outside the
  source tree: \<open>tb_tasks\<close> is what \<open>tasks.values()\<close> yields, and the container's
  \<open>filter(bounds)\<close> is the parameter \<open>index_filter\<close>, given those values and the query.
\<close>

record 'g task_batch =
  tb_id :: string
  tb_tasks :: "'g any_task list"
  tb_func :: func
  tb_fkwargs :: "(string \<times> pyval) list"

type_synonym 'g index_filter = "'g any_task list \<Rightarrow> bounds option \<Rightarrow> error + 'g any_task list"

definition TaskBatch_intersection ::
  "'g index_filter \<Rightarrow> 'g task_batch \<Rightarrow> 'g pyarg \<Rightarrow> error + 'g any_task list" where
  "TaskBatch_intersection index_filter self other =
     (case other of
        ArgTask t \<Rightarrow> index_filter (tb_tasks self) (bounds_of t)
      | ArgBounds b \<Rightarrow> index_filter (tb_tasks self) (Some b)
      | ArgOther \<Rightarrow> Inl TypeError)"

text \<open>
  \<open>TileTaskBatch\<close>: \<open>ttb_tasks\<close> is the dictionary from tile to task in insertion order,
  \<open>ttb_tp\<close> and \<open>ttb_zoom\<close> are \<open>_tp\<close> and \<open>_zoom\<close>.
\<close>

record 'g tile_task_batch =
  ttb_id :: string
  ttb_bounds :: "real option \<times> real option \<times> real option \<times> real option"
  ttb_tasks :: "(tile \<times> 'g tile_task) list"
  ttb_func :: func
  ttb_fkwargs :: "(string \<times> pyval) list"
  ttb_tp :: "pyramid option"
  ttb_zoom :: "nat option"

text \<open>
  \<open>TileTaskBatch._validate\<close>: every item is a \<open>TileTask\<close> of the pyramid and zoom of the
  first one. The result is the items with the final \<open>_tp\<close> and \<open>_zoom\<close>.
\<close>

fun validate_items ::
  "pyramid option \<Rightarrow> nat option \<Rightarrow> 'g any_task list \<Rightarrow>
   error + ('g tile_task list \<times> pyramid option \<times> nat option)" where
  "validate_items tp z [] = Inr ([], tp, z)"
| "validate_items tp z (PlainTask t # items) = Inl TypeError"
| "validate_items tp z (ATileTask item # items) =
     (if tp \<noteq> None \<and> tp \<noteq> Some (buffered_tp (tile item)) then Inl TypeError
      else if z \<noteq> None \<and> z \<noteq> Some (zoom (tile item)) then Inl TypeError
      else (case validate_items (Some (buffered_tp (tile item))) (Some (zoom (tile item))) items of
              Inl e \<Rightarrow> Inl e
            | Inr (rest, tp', z') \<Rightarrow> Inr (item # rest, tp', z')))"

definition opt_min :: "real option \<Rightarrow> real \<Rightarrow> real option" where
  "opt_min cur v = Some (case cur of None \<Rightarrow> v | Some c \<Rightarrow> min c v)"

definition opt_max :: "real option \<Rightarrow> real \<Rightarrow> real option" where
  "opt_max cur v = Some (case cur of None \<Rightarrow> v | Some c \<Rightarrow> max c v)"

definition update_bounds ::
  "tilemath \<Rightarrow> tile list \<Rightarrow> real option \<times> real option \<times> real option \<times> real option \<Rightarrow>
   real option \<times> real option \<times> real option \<times> real option" where
  "update_bounds M tiles start =
     fold (\<lambda>tl (left, bottom, right, top).
             (case tm_bounds M tl of (l, b, r, t) \<Rightarrow>
                (opt_min left l, opt_min bottom b, opt_max right r, opt_max top t)))
          tiles start"

definition TileTaskBatch_init ::
  "tilemath \<Rightarrow> string \<Rightarrow> 'g any_task list \<Rightarrow> string option \<Rightarrow> func option \<Rightarrow>
   (string \<times> pyval) list option \<Rightarrow> error + 'g tile_task_batch" where
  "TileTaskBatch_init M uuid items id_arg func_arg fkwargs_arg =
     (case validate_items None None items of
        Inl e \<Rightarrow> Inl e
      | Inr (tts, tp, z) \<Rightarrow>
          (let tasks = fold (\<lambda>item d. AList.update (tile item) item d) tts []
           in Inr \<lparr> ttb_id = str_or id_arg uuid,
                    ttb_bounds = update_bounds M (map fst tasks) (None, None, None, None),
                    ttb_tasks = tasks,
                    ttb_func = (case func_arg of None \<Rightarrow> Execute_tile_task_wrapper | Some f \<Rightarrow> f),
                    ttb_fkwargs = list_or_empty fkwargs_arg,
                    ttb_tp = tp, ttb_zoom = z \<rparr>))"

text \<open>
  \<open>TileTaskBatch.intersection\<close>. A task that is not a tile task is looked up by its
  bounds; bounds that are unset fall through to the type error. The bounds query asks
  the batch's pyramid, which an empty batch does not have.
\<close>

definition tiles_in_batch :: "'g tile_task_batch \<Rightarrow> tile list \<Rightarrow> 'g tile_task list" where
  "tiles_in_batch self tiles = List.map_filter (map_of (ttb_tasks self)) tiles"

definition bounds_intersection ::
  "tilemath \<Rightarrow> 'g tile_task_batch \<Rightarrow> bounds \<Rightarrow> error + 'g tile_task list" where
  "bounds_intersection M self b =
     (case (ttb_tp self, ttb_zoom self) of
        (Some tp, Some z) \<Rightarrow> Inr (tiles_in_batch self (tm_tiles_from_bounds M tp b z))
      | _ \<Rightarrow> Inl AttributeError)"

definition TileTaskBatch_intersection ::
  "tilemath \<Rightarrow> 'g tile_task_batch \<Rightarrow> 'g pyarg \<Rightarrow> error + 'g tile_task list" where
  "TileTaskBatch_intersection M self other =
     (case other of
        ArgTask (ATileTask o_task) \<Rightarrow>
          (if Some (zoom (tile o_task) + 1) \<noteq> ttb_zoom self then Inl ValueError
           else Inr (tiles_in_batch self (get_children M (tile o_task))))
      | ArgTask (PlainTask o_task) \<Rightarrow>
          (case bounds o_task of
             None \<Rightarrow> Inl TypeError
           | Some b \<Rightarrow> bounds_intersection M self b)
      | ArgBounds b \<Rightarrow> bounds_intersection M self b
      | ArgOther \<Rightarrow> Inl TypeError)"

subsection \<open>The task graph for dask\<close>

datatype 'g batch = ABatch "'g task_batch" | ATileBatch "'g tile_task_batch"

fun batch_id :: "'g batch \<Rightarrow> string" where
  "batch_id (ABatch b) = tb_id b"
| "batch_id (ATileBatch b) = ttb_id b"

fun batch_func :: "'g batch \<Rightarrow> func" where
  "batch_func (ABatch b) = tb_func b"
| "batch_func (ATileBatch b) = ttb_func b"

fun batch_fkwargs :: "'g batch \<Rightarrow> (string \<times> pyval) list" where
  "batch_fkwargs (ABatch b) = tb_fkwargs b"
| "batch_fkwargs (ATileBatch b) = ttb_fkwargs b"

fun batch_values :: "'g batch \<Rightarrow> 'g any_task list" where
  "batch_values (ABatch b) = tb_tasks b"
| "batch_values (ATileBatch b) = map (\<lambda>(k, t). ATileTask t) (ttb_tasks b)"

fun batch_intersection ::
  "tilemath \<Rightarrow> 'g index_filter \<Rightarrow> 'g batch \<Rightarrow> 'g pyarg \<Rightarrow> error + 'g any_task list" where
  "batch_intersection M X (ABatch b) other = TaskBatch_intersection X b other"
| "batch_intersection M X (ATileBatch b) other =
     (case TileTaskBatch_intersection M b other of
        Inl e \<Rightarrow> Inl e
      | Inr ts \<Rightarrow> Inr (map ATileTask ts))"

text \<open>
  A node of the dask graph: \<open>delayed(task_func, pure=True, name=..., traverse=...)\<close>
  applied to the task, its dependencies, the batch's keyword arguments and the key name.
\<close>

datatype 'g delayed =
  Delayed (d_func: func) (d_name: string) (d_traverse: bool) (d_task: "'g any_task")
    (d_dependencies: "(string \<times> 'g delayed) list") (d_kwargs: "(string \<times> pyval) list")
    (d_key_name: string)

text \<open>
  The dictionary comprehension \<open>{child.id: tasks[child] for child in ...}\<close>; \<open>tasks\<close> is
  keyed by the identity of the task object, and a missing key raises.
\<close>

fun dependencies_dict ::
  "(nat \<times> 'g delayed) list \<Rightarrow> 'g any_task list \<Rightarrow> (string \<times> 'g delayed) list \<Rightarrow>
   error + (string \<times> 'g delayed) list" where
  "dependencies_dict tasks [] acc = Inr acc"
| "dependencies_dict tasks (child # children) acc =
     (case map_of tasks (oid_of child) of
        None \<Rightarrow> Inl KeyError
      | Some node \<Rightarrow> dependencies_dict tasks children (AList.update (id_of child) node acc))"

text \<open>
  The dependencies of one task. \<open>if previous_batch\<close> is false before the first batch and
  for a batch of length zero.
\<close>

definition task_dependencies ::
  "tilemath \<Rightarrow> 'g index_filter \<Rightarrow> 'g batch option \<Rightarrow> (nat \<times> 'g delayed) list \<Rightarrow> 'g any_task \<Rightarrow>
   error + (string \<times> 'g delayed) list" where
  "task_dependencies M X previous_batch tasks t =
     (case previous_batch of
        None \<Rightarrow> Inr []
      | Some prev \<Rightarrow>
          (if length (batch_values prev) = 0 then Inr []
           else (case batch_intersection M X prev (ArgTask t) of
                   Inl e \<Rightarrow> Inl e
                 | Inr children \<Rightarrow> dependencies_dict tasks children [])))"

fun convert_tasks ::
  "tilemath \<Rightarrow> 'g index_filter \<Rightarrow> func \<Rightarrow> (string \<times> pyval) list \<Rightarrow> 'g batch option \<Rightarrow>
   'g any_task list \<Rightarrow> (nat \<times> 'g delayed) list \<Rightarrow> error + (nat \<times> 'g delayed) list" where
  "convert_tasks M X task_func kwargs previous_batch [] tasks = Inr tasks"
| "convert_tasks M X task_func kwargs previous_batch (t # ts) tasks =
     (case task_dependencies M X previous_batch tasks t of
        Inl e \<Rightarrow> Inl e
      | Inr deps \<Rightarrow>
          convert_tasks M X task_func kwargs previous_batch ts
            (AList.update (oid_of t)
               (Delayed task_func (id_of t) (length deps > 0) t deps kwargs
                  (result_key_name_of t))
               tasks))"

definition func_or :: "func option \<Rightarrow> func \<Rightarrow> func" where
  "func_or f d = (case f of None \<Rightarrow> d | Some g \<Rightarrow> g)"

fun convert_batches ::
  "tilemath \<Rightarrow> 'g index_filter \<Rightarrow> func option \<Rightarrow> func option \<Rightarrow> 'g batch option \<Rightarrow>
   'g batch list \<Rightarrow> (nat \<times> 'g delayed) list \<Rightarrow> error + (nat \<times> 'g delayed) list" where
  "convert_batches M X pre_wrapper tile_wrapper previous_batch [] tasks = Inr tasks"
| "convert_batches M X pre_wrapper tile_wrapper previous_batch (b # bs) tasks =
     (let task_func = (if batch_id b = ''preprocessing_tasks''
                       then func_or pre_wrapper (batch_func b)
                       else func_or tile_wrapper (batch_func b))
      in case convert_tasks M X task_func (batch_fkwargs b) previous_batch (batch_values b)
                tasks of
           Inl e \<Rightarrow> Inl e
         | Inr tasks' \<Rightarrow> convert_batches M X pre_wrapper tile_wrapper (Some b) bs tasks')"

definition to_dask_collection ::
  "tilemath \<Rightarrow> 'g index_filter \<Rightarrow> 'g batch list \<Rightarrow> func option \<Rightarrow> func option \<Rightarrow>
   error + 'g delayed list" where
  "to_dask_collection M X batches preprocessing_task_wrapper tile_task_wrapper =
     (case convert_batches M X preprocessing_task_wrapper tile_task_wrapper None batches [] of
        Inl e \<Rightarrow> Inl e
      | Inr tasks \<Rightarrow> Inr (map snd tasks))"

text \<open>
  What it means for \<open>deps\<close> to be exactly the dependencies of task \<open>t\<close> after the batch
  \<open>previous\<close>: nothing before the first batch or after a batch without tasks; otherwise
  the keys are the ids of the tasks that \<open>previous.intersection(t)\<close> returns, no key
  occurs twice, and every value is the node stored for the task object of that id.
\<close>

definition exact_dependencies ::
  "tilemath \<Rightarrow> 'g index_filter \<Rightarrow> 'g batch option \<Rightarrow> 'g any_task \<Rightarrow>
   (string \<times> 'g delayed) list \<Rightarrow> bool" where
  "exact_dependencies M X previous t deps =
     (case previous of
        None \<Rightarrow> deps = []
      | Some prev \<Rightarrow>
          (if batch_values prev = [] then deps = []
           else (case batch_intersection M X prev (ArgTask t) of
                   Inl e \<Rightarrow> False
                 | Inr children \<Rightarrow>
                     distinct (map fst deps)
                     \<and> set (map fst deps) = set (map id_of children)
                     \<and> list_all (\<lambda>(k, n). list_ex (\<lambda>c. id_of c = k
                                                  \<and> oid_of c = oid_of (d_task n)) children)
                          deps)))"

text \<open>The batch before position \<open>i\<close> of a sequence of batches.\<close>

definition previous_of :: "'g batch list \<Rightarrow> nat \<Rightarrow> 'g batch option" where
  "previous_of batches i = (if i = 0 then None else Some (batches ! (i - 1)))"

section \<open>The execute command\<close>

datatype status =
    Parsing | Initializing | Running | Retrying | Post_processing | Done | Cancelled | Failed

record progress =
  pr_current :: nat
  pr_total :: nat

record task_result =
  tr_id :: string
  tr_process_msg :: string

text \<open>The messages of \<open>execute\<close>, by their kind and the numbers they print.\<close>

datatype message =
    Attempt_message nat int
  | Processing_message nat nat
  | Waiting_message
  | Sending_message nat
  | Task_message string string

text \<open>One call of \<open>all_observers.notify\<close> with its keyword arguments.\<close>

record event =
  ev_status :: "status option"
  ev_progress :: "progress option"
  ev_message :: "message option"
  ev_task_result :: "task_result option"

definition notify ::
  "status option \<Rightarrow> progress option \<Rightarrow> message option \<Rightarrow> task_result option \<Rightarrow> event" where
  "notify s p m r = \<lparr> ev_status = s, ev_progress = p, ev_message = m, ev_task_result = r \<rparr>"

definition statuses :: "event list \<Rightarrow> status list" where
  "statuses trace = List.map_filter ev_status trace"

definition progresses :: "event list \<Rightarrow> progress list" where
  "progresses trace = List.map_filter ev_progress trace"

text \<open>
  What one attempt meets outside \<open>execute\<close>: the task counts of the configuration, the
  results \<open>mp.compute\<close> yields, and the exception that ends the iteration, if any.
  Observers are taken not to raise, and nothing outside the \<open>try\<close> block raises.
\<close>

record job_attempt =
  preprocessing_tasks_count :: nat
  count_tiles :: nat
  futures :: "task_result list"
  raises :: "error option"

definition total_tasks :: "bool \<Rightarrow> job_attempt \<Rightarrow> nat" where
  "total_tasks tile_given job =
     preprocessing_tasks_count job + (if tile_given then 1 else count_tiles job)"

text \<open>The two notifications for the \<open>ii\<close>-th result, \<open>ii\<close> counting from \<open>first\<close>.\<close>

fun result_events :: "nat \<Rightarrow> nat \<Rightarrow> task_result list \<Rightarrow> event list" where
  "result_events total_n first [] = []"
| "result_events total_n first (r # rs) =
     notify None None (Some (Task_message (tr_id r) (tr_process_msg r))) None
     # notify None (Some \<lparr> pr_current = first, pr_total = total_n \<rparr>) None (Some r)
     # result_events total_n (Suc first) rs"

text \<open>
  One pass through the body of the \<open>while\<close> loop: it returns, raises, or ends in the
  retry branch, each with the notifications made.
\<close>

datatype attempt_outcome =
    Returned "event list"
  | Raised "event list" error
  | Retry "event list"

definition run_attempt ::
  "(error \<Rightarrow> bool) \<Rightarrow> (error \<Rightarrow> bool) \<Rightarrow> bool \<Rightarrow> int \<Rightarrow> nat \<Rightarrow> job_attempt \<Rightarrow> attempt_outcome" where
  "run_attempt cancel_on retry_on tile_given retries attempt job =
     (let total_n = total_tasks tile_given job;
          start =
            (if attempt > 1 then [notify None None (Some (Attempt_message attempt retries)) None]
             else [])
            @ [notify (Some Initializing) None None None,
               notify None None
                 (Some (Processing_message (preprocessing_tasks_count job)
                          (if tile_given then 1 else count_tiles job))) None]
      in if total_n = 0 then Returned (start @ [notify (Some Done) None None None])
         else
           (let evs = start
                  @ [notify None None (Some Waiting_message) None,
                     notify (Some Running) (Some \<lparr> pr_current = 0, pr_total = total_n \<rparr>)
                       (Some (Sending_message total_n)) None]
                  @ result_events total_n 1 (futures job)
            in case raises job of
                 None \<Rightarrow> Returned evs
               | Some e \<Rightarrow>
                   (if cancel_on e then Raised (evs @ [notify (Some Cancelled) None None None]) e
                    else if retry_on e then
                      (if retries \<noteq> 0
                       then Retry (evs @ [notify (Some Failed) None None None,
                                          notify (Some Retrying) None None None])
                       else Raised (evs @ [notify (Some Failed) None None None]) e)
                    else Raised evs e)))"

text \<open>
  The loop \<open>while retries + 1\<close>. The result is the notifications made, the exception
  raised out of \<open>execute\<close> if any, and the number of attempts started. The loop need not
  end (a negative retry counter never reaches \<open>-1\<close>), so the result is optional.
\<close>

partial_function (option) attempt_loop ::
  "(error \<Rightarrow> bool) \<Rightarrow> (error \<Rightarrow> bool) \<Rightarrow> bool \<Rightarrow> (nat \<Rightarrow> job_attempt) \<Rightarrow> int \<Rightarrow> nat \<Rightarrow>
   event list \<Rightarrow> (event list \<times> (error + unit) \<times> nat) option" where
  "attempt_loop cancel_on retry_on tile_given jobs retries attempt trace =
     (if retries + 1 = 0 then Some (trace, Inr (), attempt)
      else (case run_attempt cancel_on retry_on tile_given retries (Suc attempt)
                   (jobs (Suc attempt)) of
              Returned evs \<Rightarrow> Some (trace @ evs, Inr (), Suc attempt)
            | Raised evs e \<Rightarrow> Some (trace @ evs, Inl e, Suc attempt)
            | Retry evs \<Rightarrow>
                attempt_loop cancel_on retry_on tile_given jobs (retries - 1) (Suc attempt)
                  (trace @ evs)))"

declare attempt_loop.simps [code]

text \<open>
  \<open>execute\<close>: \<open>jobs n\<close> is what the \<open>n\<close>-th attempt meets. The defaults of the source are
  \<open>retry_on_exception = Exception\<close> and \<open>cancel_on_exception = JobCancelledError\<close>.
\<close>

definition execute ::
  "(error \<Rightarrow> bool) \<Rightarrow> (error \<Rightarrow> bool) \<Rightarrow> bool \<Rightarrow> (nat \<Rightarrow> job_attempt) \<Rightarrow> int \<Rightarrow>
   (event list \<times> (error + unit) \<times> nat) option" where
  "execute cancel_on retry_on tile_given jobs retries =
     attempt_loop cancel_on retry_on tile_given jobs retries 0
       [notify (Some Parsing) None None None]"

definition default_cancel_on :: "error \<Rightarrow> bool" where
  "default_cancel_on e = (e = JobCancelledError)"

definition default_retry_on :: "error \<Rightarrow> bool" where
  "default_retry_on e = True"

text \<open>
  What a finished job shows about cancellation: the status \<open>cancelled\<close> was notified
  exactly when an exception of the cancel class left \<open>execute\<close>, at most once, and
  then as the last status.
\<close>

definition cancelled_once :: "(error \<Rightarrow> bool) \<Rightarrow> event list \<times> (error + unit) \<times> nat \<Rightarrow> bool" where
  "cancelled_once C y =
     (case y of (trace, outcome, n) \<Rightarrow>
        (Cancelled \<in> set (statuses trace)) = (case outcome of Inl e \<Rightarrow> C e | Inr _ \<Rightarrow> False)
        \<and> count_list (statuses trace) Cancelled \<le> 1
        \<and> (if Cancelled \<in> set (statuses trace) then last (statuses trace) = Cancelled
            else True))"

text \<open>
  What the mosaic of the \<open>lower\<close> branch must hold for an output tile \<open>k\<close>. A dependency
  covers \<open>k\<close> when it has a tile, its output is not \<open>None\<close> and \<open>k\<close> is among the output
  tiles intersecting its tile. If some dependency covers \<open>k\<close>, the source of \<open>k\<close> is the
  part of the last covering dependency's output extracted for \<open>k\<close>; otherwise \<open>k\<close> is
  read from the output when it is one of the child tiles, and is not in the mosaic at
  all when it is not.
\<close>

definition covers :: "tilemath \<Rightarrow> pyramid \<Rightarrow> tile \<Rightarrow> task_info \<Rightarrow> bool" where
  "covers M p k info =
     (case ti_tile info of
        None \<Rightarrow> False
      | Some s \<Rightarrow> ti_output info \<noteq> PNone \<and> k \<in> set (tm_intersecting M p s))"

definition extract_for :: "tile \<Rightarrow> task_info \<Rightarrow> pyval" where
  "extract_for k info =
     (case ti_tile info of
        None \<Rightarrow> PNone
      | Some s \<Rightarrow> Extracted (ti_output info) s k)"

definition expected_source ::
  "tilemath \<Rightarrow> pyramid \<Rightarrow> task_info list \<Rightarrow> tile list \<Rightarrow> tile \<Rightarrow> pyval option" where
  "expected_source M p infos children k =
     (case filter (covers M p k) infos of
        [] \<Rightarrow> (if k \<in> set children then Some (Stored k) else None)
      | c # cs \<Rightarrow> Some (extract_for k (last (c # cs))))"

text \<open>
  Two invariants of the conversion. The dictionary \<open>tasks\<close> stores under every key a node
  of the task with that identity (\<open>keyed\<close>), and every dependency value of a stored node
  is itself a stored node (\<open>closed\<close>).
\<close>

definition keyed :: "(nat \<times> 'g delayed) list \<Rightarrow> bool" where
  "keyed tasks = (\<forall>(k, n) \<in> set tasks. oid_of (d_task n) = k)"

definition closed :: "(nat \<times> 'g delayed) list \<Rightarrow> bool" where
  "closed tasks = (\<forall>(k, n) \<in> set tasks. snd ` set (d_dependencies n) \<subseteq> snd ` set tasks)"

text \<open>
  The function a batch's tasks are wrapped with: the preprocessing wrapper for the batch
  called \<open>preprocessing_tasks\<close>, the tile task wrapper for any other, the batch's own
  function where no wrapper is given.
\<close>

definition batch_task_func :: "func option \<Rightarrow> func option \<Rightarrow> 'g batch \<Rightarrow> func" where
  "batch_task_func pre_wrapper tile_wrapper b =
     (if batch_id b = ''preprocessing_tasks'' then func_or pre_wrapper (batch_func b)
      else func_or tile_wrapper (batch_func b))"

text \<open>
  A node is the node built for a task of the batches when, for some batch that holds its
  task, it applies that batch's function and keyword arguments to the task, is named by
  the task's id, has the task's result key name, traverses exactly when it has
  dependencies, its dependencies are exactly those of the task after the batch before,
  and every dependency value is in turn the node built for its task. So a dependency
  value is the whole upstream node, down to the upstream node's own dependencies, and
  not just some node that mentions the upstream task.
\<close>

fun built ::
  "tilemath \<Rightarrow> 'g index_filter \<Rightarrow> func option \<Rightarrow> func option \<Rightarrow> 'g batch list \<Rightarrow> 'g delayed \<Rightarrow> bool" where
  "built M X pw tw batches (Delayed f name trv t deps kw key) =
     (list_ex (\<lambda>i. t \<in> set (batch_values (batches ! i))
                   \<and> f = batch_task_func pw tw (batches ! i)
                   \<and> kw = batch_fkwargs (batches ! i)
                   \<and> exact_dependencies M X (previous_of batches i) t deps)
              [0 ..< length batches]
      \<and> name = id_of t \<and> trv = (length deps > 0) \<and> key = result_key_name_of t
      \<and> list_all (\<lambda>e. built M X pw tw batches (snd e)) deps)"

section \<open>Example instances\<close>

text \<open>
  A concrete setting in which the definitions can be evaluated: the geodetic quadtree
  without metatiling, rectangles as geometries, and small configurations.
\<close>

definition geodetic :: pyramid where
  "geodetic = \<lparr> grid = ''geodetic'', metatiling = 1, pixelbuffer = 0 \<rparr>"

definition mk_tile :: "nat \<Rightarrow> nat \<Rightarrow> nat \<Rightarrow> tile" where
  "mk_tile z r c = \<lparr> zoom = z, row = r, col = c, buffered_tp = geodetic \<rparr>"

definition quad_bounds :: "tile \<Rightarrow> bounds" where
  "quad_bounds t =
     (let s = 180 / 2 ^ zoom t; l = real (col t) * s - 180; tp = 90 - real (row t) * s
      in (l, tp - s, l + s, tp))"

definition overlap :: "bounds \<Rightarrow> bounds \<Rightarrow> bool" where
  "overlap a b =
     (case (a, b) of ((l1, b1, r1, t1), (l2, b2, r2, t2)) \<Rightarrow>
        l1 < r2 \<and> l2 < r1 \<and> b1 < t2 \<and> b2 < t1)"

definition quad_children :: "tile \<Rightarrow> tile list" where
  "quad_children t =
     map (\<lambda>(dr, dc). t\<lparr> zoom := zoom t + 1, row := 2 * row t + dr, col := 2 * col t + dc \<rparr>)
       [(0, 0), (0, 1), (1, 1), (1, 0)]"

definition quadtree :: tilemath where
  "quadtree =
     \<lparr> tm_bounds = quad_bounds,
       tm_tiles_from_bounds = (\<lambda>p b z.
          filter (\<lambda>t. overlap (quad_bounds t) b)
            (concat (map (\<lambda>r. map (\<lambda>c. \<lparr> zoom = z, row = r, col = c, buffered_tp = p \<rparr>)
                                  [0 ..< 2 ^ (z + 1)])
                         [0 ..< 2 ^ z]))),
       tm_intersecting = (\<lambda>p t. [t\<lparr> buffered_tp := p \<rparr>]),
       get_children = quad_children,
       get_parent = (\<lambda>t. t\<lparr> zoom := zoom t - 1, row := row t div 2, col := col t div 2 \<rparr>) \<rparr>"

datatype rect_geom = Empty_polygon | Rectangle bounds

definition rect_lib :: "rect_geom geo_lib" where
  "rect_lib =
     \<lparr> geom_truth = (\<lambda>g. g \<noteq> Empty_polygon),
       to_shape = Inr,
       geom_bounds = (\<lambda>g. case g of Empty_polygon \<Rightarrow> [] | Rectangle (l, b, r, t) \<Rightarrow> [l, b, r, t]),
       validate_bounds = (\<lambda>xs. case xs of [l, b, r, t] \<Rightarrow> Inr (l, b, r, t) | _ \<Rightarrow> Inl ValueError),
       box = Rectangle \<rparr>"

definition example_reader :: output_reader where
  "example_reader = \<lparr> rd_pyramid = geodetic, rd_nodata = 0, rd_output_params = [] \<rparr>"

definition example_process :: process_func where
  "example_process ctx =
     (if odd (col (pc_tile ctx)) then Inl MapcheteNodataTile
      else if row (pc_tile ctx) = 7 then Inr (PStr ''empty'')
      else Inr (PArray ''data''))"

definition example_config :: "string \<Rightarrow> baselevels option \<Rightarrow> config" where
  "example_config m bls =
     \<lparr> cfg_zoom_levels = [1, 2, 3], cfg_baselevels = bls, cfg_process = example_process,
       cfg_config_dir = ''/tmp'', cfg_mode = m, get_inputs_for_tile = (\<lambda>_. []),
       get_process_func_params = (\<lambda>_. []), cfg_output_reader = example_reader \<rparr>"

definition example_baselevels :: baselevels where
  "example_baselevels =
     \<lparr> bl_zooms = [2], bl_lower = ''bilinear'', bl_higher = ''nearest'',
       bl_tile_pyramid = geodetic \<rparr>"

definition example_task ::
  "string \<Rightarrow> baselevels option \<Rightarrow> bool \<Rightarrow> tile \<Rightarrow> error + rect_geom tile_task" where
  "example_task m bls skp t =
     TileTask_init rect_lib ''0f'' 1 ''tile_task'' (Rectangle (quad_bounds t)) t None
       (Some (example_config m bls)) None skp"

text \<open>
  Tile tasks as \<open>TileTask.__init__\<close> builds them from the example configuration with
  baselevels, and a batch of four of them at zoom 2.
\<close>

definition example_tile_task :: "nat \<Rightarrow> string \<Rightarrow> tile \<Rightarrow> rect_geom tile_task" where
  "example_tile_task obj name t =
     \<lparr> oid = obj, task_id = name, func = None, fargs = [], fkwargs = [],
       dependencies = [], result_key_name = name @ ''_result'',
       geometry = Some (Rectangle (quad_bounds t)), bounds = Some (quad_bounds t),
       tile = t, skip = False,
       config_zoom_levels = Some [1, 2, 3],
       config_baselevels = Some example_baselevels,
       process = Some example_process,
       config_dir = Some ''/tmp'',
       input = [], process_func_params = [], output_params = [],
       mode = Some ''continue'',
       output_reader = Some example_reader \<rparr>"

definition example_zoom2_tasks :: "rect_geom any_task list" where
  "example_zoom2_tasks =
     [ATileTask (example_tile_task 1 ''A'' (mk_tile 2 0 0)),
      ATileTask (example_tile_task 2 ''B'' (mk_tile 2 1 2)),
      ATileTask (example_tile_task 3 ''C'' (mk_tile 2 0 2)),
      ATileTask (example_tile_task 4 ''D'' (mk_tile 2 1 3))]"

text \<open>
  A preprocessing batch with one task without geometry, a container filter that keeps
  the tasks without bounds and those whose bounds overlap the query, and a batch with the
  parent tile at zoom 1.
\<close>

definition example_pre_task :: "rect_geom task" where
  "example_pre_task =
     \<lparr> oid = 10, task_id = ''src1:fetch'', func = Some (Func ''fetch''), fargs = [],
       fkwargs = [], dependencies = [], result_key_name = ''src1:fetch_result'',
       geometry = None, bounds = None \<rparr>"

definition example_pre_batch :: "rect_geom task_batch" where
  "example_pre_batch =
     \<lparr> tb_id = ''preprocessing_tasks'', tb_tasks = [PlainTask example_pre_task],
       tb_func = Execute_task_wrapper, tb_fkwargs = [] \<rparr>"

definition overlap_filter :: "rect_geom index_filter" where
  "overlap_filter items query =
     (case query of
        None \<Rightarrow> Inl AttributeError
      | Some q \<Rightarrow>
          Inr (filter (\<lambda>t. case bounds_of t of None \<Rightarrow> True | Some b \<Rightarrow> overlap b q) items))"

definition example_zoom1_tasks :: "rect_geom any_task list" where
  "example_zoom1_tasks = [ATileTask (example_tile_task 5 ''X'' (mk_tile 1 0 1))]"

text \<open>
  Jobs with one tile task: an attempt yields its result, or raises the given exception
  before any result. \<open>fail_then_succeed\<close> fails on the first attempt only,
  \<open>cancel_first\<close> is cancelled on the first attempt.
\<close>

definition one_task :: "error option \<Rightarrow> job_attempt" where
  "one_task e =
     \<lparr> preprocessing_tasks_count = 0, count_tiles = 1,
       futures = (case e of None \<Rightarrow> [\<lparr> tr_id = ''tile_task'', tr_process_msg = ''processed'' \<rparr>]
                  | Some _ \<Rightarrow> []),
       raises = e \<rparr>"

definition fail_then_succeed :: "nat \<Rightarrow> job_attempt" where
  "fail_then_succeed n =
     (if n = 1 then one_task (Some (OtherException ''boom'')) else one_task None)"

definition cancel_first :: "nat \<Rightarrow> job_attempt" where
  "cancel_first n = (if n = 1 then one_task (Some JobCancelledError) else one_task None)"

text \<open>
  Two results received as dependencies: the result of the tile task for the child tile
  \<open>(2, 0, 2)\<close>, and the result of a preprocessing task, which has no tile.
\<close>

definition example_dependency :: "(string \<times> task_info) list" where
  "example_dependency =
     [(''tile_task_C'', \<lparr> ti_id = None, ti_output = PArray ''c'', ti_processed = True,
                          ti_tile = Some (mk_tile 2 0 2) \<rparr>)]"

definition example_preprocessing_result :: "(string \<times> task_info) list" where
  "example_preprocessing_result =
     [(''src1:fetch'', \<lparr> ti_id = Some ''src1:fetch'', ti_output = PArray ''p'',
                         ti_processed = True, ti_tile = None \<rparr>)]"


section \<open>Properties of the tile-task runtime\<close>


lemma set_update_entries:
  "set (AList.update k v al) \<subseteq> insert (k, v) (set al)"
  by (induction al) auto

lemma keys_update: "fst ` set (AList.update k v al) = insert k (fst ` set al)"
  by (induction al) auto

lemma example_task_value:
  "example_task m bls skp t =
     Inr \<lparr> oid = 1, task_id = ''tile_task'', func = None, fargs = [], fkwargs = [],
           dependencies = [], result_key_name = ''tile_task_result'',
           geometry = Some (Rectangle (quad_bounds t)), bounds = Some (quad_bounds t),
           tile = t, skip = skp,
           config_zoom_levels = (if skp then None else Some [1, 2, 3]),
           config_baselevels = (if skp then None else bls),
           process = (if skp then None else Some example_process),
           config_dir = (if skp then None else Some ''/tmp''),
           input = [], process_func_params = [], output_params = [],
           mode = (if skp then None else Some m),
           output_reader = (if skp then None else case bls of None \<Rightarrow> None | Some _ \<Rightarrow> Some example_reader) \<rparr>"
  by (cases "quad_bounds t")
     (simp add: example_task_def TileTask_init_def Task_init_def str_or_def given_geometry_def
        given_bounds_def rect_lib_def example_config_def list_or_empty_def Let_def
        task.extend_def tile_task.fields_def example_reader_def split: option.splits)

text \<open>
  Claim C10. \<open>TileTask.execute\<close> accepts only the modes memory, continue and overwrite:
  for a task with any other mode, \<open>readonly\<close> included, it raises \<open>ValueError\<close> at once,
  whatever the zoom levels and dependencies are, and the user process is not called.
\<close>

theorem unsupported_mode_raises_ValueError:
  "mode t \<notin> {Some ''memory'', Some ''continue'', Some ''overwrite''} \<Longrightarrow>
     TileTask_execute M t deps = ([], Inl ValueError)"
  by (auto simp: TileTask_execute_def mode_ok_def split: option.splits)

theorem unsupported_mode_raises_ValueError_witness:
  "\<exists>t. example_task ''readonly'' None False (mk_tile 2 1 2) = Inr t
       \<and> skip t = False \<and> mode t = Some ''readonly''
       \<and> TileTask_execute quadtree t None = ([], Inl ValueError)"
  using unsupported_mode_raises_ValueError
          [of "projr (example_task ''readonly'' None False (mk_tile 2 1 2))" quadtree None]
  by (simp add: example_task_value)

lemma map_of_fold_extract:
  "map_of (fold (\<lambda>output_tile acc.
                     if out \<noteq> PNone
                     then AList.update output_tile (Extracted out t output_tile) acc
                     else acc) ots acc) k =
     (if out \<noteq> PNone \<and> k \<in> set ots then Some (Extracted out t k) else map_of acc k)"
  by (induction ots arbitrary: acc) (auto simp: update_conv')

lemma distinct_fold_extract:
  "distinct (map fst acc) \<Longrightarrow>
   distinct (map fst (fold (\<lambda>output_tile acc.
                     if out \<noteq> PNone
                     then AList.update output_tile (Extracted out t output_tile) acc
                     else acc) ots acc))"
  by (induction ots arbitrary: acc) (auto simp: distinct_update)

lemma src_tiles_from_dependencies_raises:
  "list_ex (\<lambda>info. ti_tile info = None) infos \<Longrightarrow>
     src_tiles_from_dependencies M p infos acc = Inl AttributeError"
  by (induction infos arbitrary: acc) (auto split: option.splits)

lemma src_tiles_from_dependencies_returns:
  "\<not> list_ex (\<lambda>info. ti_tile info = None) infos \<Longrightarrow>
     \<exists>src. src_tiles_from_dependencies M p infos acc = Inr src"
  by (induction infos arbitrary: acc) auto

lemma src_tiles_from_dependencies_map_of:
  assumes "src_tiles_from_dependencies M p infos acc = Inr src"
  shows "map_of src k =
           (case filter (covers M p k) infos of
              [] \<Rightarrow> map_of acc k
            | c # cs \<Rightarrow> Some (extract_for k (last (c # cs))))"
  using assms
proof (induction infos arbitrary: acc)
  case Nil
  then show ?case by simp
next
  case (Cons info infos)
  from Cons.prems obtain t where t: "ti_tile info = Some t"
    by (cases "ti_tile info") auto
  let ?acc' = "fold (\<lambda>output_tile acc.
                     if ti_output info \<noteq> PNone
                     then AList.update output_tile (Extracted (ti_output info) t output_tile) acc
                     else acc) (tm_intersecting M p t) acc"
  from Cons.prems t have rec: "src_tiles_from_dependencies M p infos ?acc' = Inr src" by simp
  have acc': "map_of ?acc' k =
      (if covers M p k info then Some (extract_for k info) else map_of acc k)"
    using t by (simp add: map_of_fold_extract covers_def extract_for_def)
  show ?case
  proof (cases "filter (covers M p k) infos")
    case Nil
    with Cons.IH[OF rec] acc' show ?thesis by simp
  next
    case (Cons c cs)
    with Cons.IH[OF rec] show ?thesis by simp
  qed
qed

lemma src_tiles_from_dependencies_distinct:
  "src_tiles_from_dependencies M p infos acc = Inr src \<Longrightarrow> distinct (map fst acc) \<Longrightarrow>
     distinct (map fst src)"
proof (induction infos arbitrary: acc)
  case Nil
  then show ?case by simp
next
  case (Cons info infos)
  from Cons.prems(1) obtain t where t: "ti_tile info = Some t"
    by (cases "ti_tile info") auto
  with Cons.prems Cons.IH show ?case
    by (auto intro: distinct_fold_extract)
qed

lemma read_missing_children_map_of:
  "map_of (read_missing_children cs src) k =
     (case map_of src k of
        Some v \<Rightarrow> Some v
      | None \<Rightarrow> if k \<in> set cs then Some (Stored k) else None)"
  unfolding read_missing_children_def
proof (induction cs arbitrary: src)
  case Nil
  then show ?case by (simp split: option.splits)
next
  case (Cons c cs)
  show ?case
  proof (cases "c \<in> fst ` set src")
    case True
    then have "map_of src c \<noteq> None" by (simp add: map_of_eq_None_iff)
    with True Cons[of src] show ?thesis by (auto split: option.splits)
  next
    case False
    then have "map_of src c = None" by (simp add: map_of_eq_None_iff)
    with False Cons[of "AList.update c (Stored c) src"] show ?thesis
      by (auto simp: update_conv' split: option.splits)
  qed
qed

lemma read_missing_children_distinct:
  "distinct (map fst src) \<Longrightarrow> distinct (map fst (read_missing_children cs src))"
  unfolding read_missing_children_def
  by (induction cs arbitrary: src) (auto simp: distinct_update)

lemma mosaic_sources_exact:
  assumes "src_tiles_from_dependencies M p infos [] = Inr src0"
  shows "map_of (read_missing_children cs src0) k = expected_source M p infos cs k"
  using src_tiles_from_dependencies_map_of[OF assms, of k]
  by (simp add: read_missing_children_map_of expected_source_def split: list.splits)

text \<open>
  Claim C1, as the code has it. For a tile task with baselevels whose zoom is strictly
  below the lowest baselevel zoom, \<open>_execute\<close> calls the interpolation with \<open>"lower"\<close> and
  never the user process. The result is the mosaic of the child tiles resampled to the
  task's tile with the \<open>lower\<close> method and the output's no-data value, and the mosaic is
  pinned tile by tile: an output tile covered by a dependency with an output holds the
  part extracted from the last such dependency, any other child tile is read from the
  output reader, and no other tile is in the mosaic; no tile occurs twice. The parent
  tile is not read. A dependency without a tile (the result of a preprocessing task)
  makes the interpolation raise \<open>AttributeError\<close>, as does a task without output reader.
  Where the mode and the zoom levels let \<open>execute\<close> reach \<open>_execute\<close>, the resampled
  mosaic is the output of the returned task result.
\<close>

theorem below_baselevels_resamples_children:
  assumes bl: "config_baselevels t = Some bl" "bl_zooms bl \<noteq> []"
    and below: "zoom (tile t) < Min (set (bl_zooms bl))"
  shows "fst (TileTask__execute M t deps) = []
     \<and> (case output_reader t of
          None \<Rightarrow> snd (TileTask__execute M t deps) = Inl AttributeError
        | Some rd \<Rightarrow>
            (if list_ex (\<lambda>d. ti_tile (snd d) = None) deps
             then snd (TileTask__execute M t deps) = Inl AttributeError
             else (\<exists>src.
                     snd (TileTask__execute M t deps) =
                       Inr (Resampled (Mosaic src (rd_nodata rd)) None (tile t) (bl_lower bl)
                              (rd_nodata rd))
                     \<and> distinct (map fst src)
                     \<and> (\<forall>k. map_of src k =
                              expected_source M (rd_pyramid rd) (map snd deps)
                                (child_tiles M rd bl (tile t)) k)
                     \<and> (if mode_ok (mode t) \<and> config_zoom_levels t = Some zls
                            \<and> zoom (tile t) \<in> set zls
                         then TileTask_execute M t (Some deps) =
                                ([], Inr \<lparr> ti_id = None,
                                           ti_output = Resampled (Mosaic src (rd_nodata rd)) None
                                                         (tile t) (bl_lower bl) (rd_nodata rd),
                                           ti_processed = True, ti_tile = Some (tile t) \<rparr>)
                         else True))))"
proof -
  have run: "TileTask__execute M t deps = ([], interpolate_from_baselevel M t bl lower deps)"
    using bl below by (simp add: TileTask__execute_def)
  then have calls: "fst (TileTask__execute M t deps) = []" by simp
  have rest: "(case output_reader t of
          None \<Rightarrow> snd (TileTask__execute M t deps) = Inl AttributeError
        | Some rd \<Rightarrow>
            (if list_ex (\<lambda>d. ti_tile (snd d) = None) deps
             then snd (TileTask__execute M t deps) = Inl AttributeError
             else (\<exists>src.
                     snd (TileTask__execute M t deps) =
                       Inr (Resampled (Mosaic src (rd_nodata rd)) None (tile t) (bl_lower bl)
                              (rd_nodata rd))
                     \<and> distinct (map fst src)
                     \<and> (\<forall>k. map_of src k =
                              expected_source M (rd_pyramid rd) (map snd deps)
                                (child_tiles M rd bl (tile t)) k)
                     \<and> (if mode_ok (mode t) \<and> config_zoom_levels t = Some zls
                            \<and> zoom (tile t) \<in> set zls
                         then TileTask_execute M t (Some deps) =
                                ([], Inr \<lparr> ti_id = None,
                                           ti_output = Resampled (Mosaic src (rd_nodata rd)) None
                                                         (tile t) (bl_lower bl) (rd_nodata rd),
                                           ti_processed = True, ti_tile = Some (tile t) \<rparr>)
                         else True))))"
  proof (cases "output_reader t")
    case None
    with run show ?thesis by (simp add: interpolate_from_baselevel_def)
  next
    case (Some rd)
    show ?thesis
    proof (cases "list_ex (\<lambda>d. ti_tile (snd d) = None) deps")
      case True
      then have "list_ex (\<lambda>info. ti_tile info = None) (map snd deps)"
        by (auto simp: list_ex_iff)
      from src_tiles_from_dependencies_raises[OF this]
      have "src_tiles_from_dependencies M (rd_pyramid rd) (map snd deps) [] = Inl AttributeError" .
      with run Some True show ?thesis by (simp add: interpolate_from_baselevel_def)
    next
      case False
      then have "\<not> list_ex (\<lambda>info. ti_tile info = None) (map snd deps)"
        by (auto simp: list_ex_iff)
      from src_tiles_from_dependencies_returns[OF this] obtain src0 where
        src0: "src_tiles_from_dependencies M (rd_pyramid rd) (map snd deps) [] = Inr src0"
        by blast
      let ?src = "read_missing_children (child_tiles M rd bl (tile t)) src0"
      let ?out = "Resampled (Mosaic ?src (rd_nodata rd)) None (tile t) (bl_lower bl) (rd_nodata rd)"
      have r: "TileTask__execute M t deps = ([], Inr ?out)"
        using run Some src0 by (simp add: interpolate_from_baselevel_def)
      have d: "distinct (map fst ?src)"
        using src_tiles_from_dependencies_distinct[OF src0] read_missing_children_distinct
        by simp
      have m: "\<forall>k. map_of ?src k =
                 expected_source M (rd_pyramid rd) (map snd deps) (child_tiles M rd bl (tile t)) k"
        using mosaic_sources_exact[OF src0] by simp
      have w: "mode_ok (mode t) \<and> config_zoom_levels t = Some zls \<and> zoom (tile t) \<in> set zls
               \<Longrightarrow> TileTask_execute M t (Some deps) =
                      ([], Inr \<lparr> ti_id = None, ti_output = ?out,
                                 ti_processed = True, ti_tile = Some (tile t) \<rparr>)"
        using r by (simp add: TileTask_execute_def list_or_empty_def)
      have "\<exists>src. snd (TileTask__execute M t deps) =
                       Inr (Resampled (Mosaic src (rd_nodata rd)) None (tile t) (bl_lower bl)
                              (rd_nodata rd))
                     \<and> distinct (map fst src)
                     \<and> (\<forall>k. map_of src k =
                              expected_source M (rd_pyramid rd) (map snd deps)
                                (child_tiles M rd bl (tile t)) k)
                     \<and> (if mode_ok (mode t) \<and> config_zoom_levels t = Some zls
                            \<and> zoom (tile t) \<in> set zls
                         then TileTask_execute M t (Some deps) =
                                ([], Inr \<lparr> ti_id = None,
                                           ti_output = Resampled (Mosaic src (rd_nodata rd)) None
                                                         (tile t) (bl_lower bl) (rd_nodata rd),
                                           ti_processed = True, ti_tile = Some (tile t) \<rparr>)
                         else True)"
        using r d m w by (intro exI[where x = ?src]) simp
      with Some False show ?thesis by simp
    qed
  qed
  from calls rest show ?thesis by (rule conjI)
qed

lemma quadtree_child_tiles:
  "pixelbuffer (rd_pyramid rd) = 0 \<Longrightarrow> pixelbuffer (bl_tile_pyramid bl) = 0 \<Longrightarrow>
     child_tiles quadtree rd bl t = quad_children (t\<lparr> buffered_tp := rd_pyramid rd \<rparr>)"
  by (simp add: child_tiles_def output_tiles_def quadtree_def)

lemma example_below_baselevels_run:
  "TileTask__execute quadtree
      (projr (example_task ''continue'' (Some example_baselevels) False (mk_tile 1 0 1))) [] =
     ([], Inr (Resampled
                 (Mosaic [(mk_tile 2 0 2, Stored (mk_tile 2 0 2)),
                          (mk_tile 2 0 3, Stored (mk_tile 2 0 3)),
                          (mk_tile 2 1 3, Stored (mk_tile 2 1 3)),
                          (mk_tile 2 1 2, Stored (mk_tile 2 1 2))] 0)
                 None (mk_tile 1 0 1) ''bilinear'' 0))"
  by (simp add: example_task_value TileTask__execute_def interpolate_from_baselevel_def
        quadtree_child_tiles read_missing_children_def example_baselevels_def
        example_reader_def mk_tile_def geodetic_def quad_children_def)

text \<open>
  The claim as written (the parent tile resampled with the \<open>higher\<close> method) fails for
  the tile \<open>(1, 0, 1)\<close> under baselevels \<open>{2}\<close>.
\<close>

theorem below_baselevels_reads_parent_counterexample:
  "\<exists>t bl rd. example_task ''continue'' (Some example_baselevels) False (mk_tile 1 0 1) = Inr t
      \<and> config_baselevels t = Some bl \<and> output_reader t = Some rd
      \<and> zoom (tile t) < Min (set (bl_zooms bl))
      \<and> TileTask__execute quadtree t [] \<noteq>
          ([], Inr (Resampled (Stored (get_parent quadtree (tile t)))
                      (Some (get_parent quadtree (tile t))) (tile t) (bl_higher bl)
                      (rd_nodata rd)))"
  using example_below_baselevels_run
  by (simp add: example_task_value example_baselevels_def mk_tile_def)

theorem below_baselevels_resamples_children_witness:
  "(\<exists>src. TileTask__execute quadtree
             (projr (example_task ''continue'' (Some example_baselevels) False (mk_tile 1 0 1)))
             example_dependency
           = ([], Inr (Resampled (Mosaic src 0) None (mk_tile 1 0 1) ''bilinear'' 0))
         \<and> map_of src (mk_tile 2 0 2) =
             Some (Extracted (PArray ''c'') (mk_tile 2 0 2) (mk_tile 2 0 2))
         \<and> map_of src (mk_tile 2 0 3) = Some (Stored (mk_tile 2 0 3))
         \<and> map_of src (mk_tile 2 1 3) = Some (Stored (mk_tile 2 1 3))
         \<and> map_of src (mk_tile 2 1 2) = Some (Stored (mk_tile 2 1 2))
         \<and> map_of src (mk_tile 2 0 0) = None)
   \<and> TileTask__execute quadtree
        (projr (example_task ''continue'' (Some example_baselevels) False (mk_tile 1 0 1)))
        example_preprocessing_result
      = ([], Inl AttributeError)"
proof -
  define t where "t = projr (example_task ''continue'' (Some example_baselevels) False (mk_tile 1 0 1))"
  have 1: "config_baselevels t = Some example_baselevels"
    and 2: "bl_zooms example_baselevels \<noteq> []"
    and 3: "zoom (tile t) < Min (set (bl_zooms example_baselevels))"
    and 4: "output_reader t = Some example_reader"
    by (simp_all add: t_def example_task_value example_baselevels_def mk_tile_def)
  have 6: "tile t = mk_tile 1 0 1"
    by (simp add: t_def example_task_value)
  have 7: "child_tiles quadtree example_reader example_baselevels (mk_tile 1 0 1)
            = [mk_tile 2 0 2, mk_tile 2 0 3, mk_tile 2 1 3, mk_tile 2 1 2]"
    by (simp add: quadtree_child_tiles example_baselevels_def
        example_reader_def mk_tile_def geodetic_def quad_children_def)
  have 8: "rd_nodata example_reader = 0" "bl_lower example_baselevels = ''bilinear''"
    "rd_pyramid example_reader = geodetic"
    by (simp_all add: example_reader_def example_baselevels_def)
  have 9: "\<not> list_ex (\<lambda>d. ti_tile (snd d) = None) example_dependency"
    "list_ex (\<lambda>d. ti_tile (snd d) = None) example_preprocessing_result"
    by (simp_all add: example_dependency_def example_preprocessing_result_def)
  have e: "expected_source quadtree geodetic (map snd example_dependency)
             [mk_tile 2 0 2, mk_tile 2 0 3, mk_tile 2 1 3, mk_tile 2 1 2] (mk_tile 2 0 2)
           = Some (Extracted (PArray ''c'') (mk_tile 2 0 2) (mk_tile 2 0 2))"
    "expected_source quadtree geodetic (map snd example_dependency)
             [mk_tile 2 0 2, mk_tile 2 0 3, mk_tile 2 1 3, mk_tile 2 1 2] (mk_tile 2 0 3)
           = Some (Stored (mk_tile 2 0 3))"
    "expected_source quadtree geodetic (map snd example_dependency)
             [mk_tile 2 0 2, mk_tile 2 0 3, mk_tile 2 1 3, mk_tile 2 1 2] (mk_tile 2 1 3)
           = Some (Stored (mk_tile 2 1 3))"
    "expected_source quadtree geodetic (map snd example_dependency)
             [mk_tile 2 0 2, mk_tile 2 0 3, mk_tile 2 1 3, mk_tile 2 1 2] (mk_tile 2 1 2)
           = Some (Stored (mk_tile 2 1 2))"
    "expected_source quadtree geodetic (map snd example_dependency)
             [mk_tile 2 0 2, mk_tile 2 0 3, mk_tile 2 1 3, mk_tile 2 1 2] (mk_tile 2 0 0)
           = None"
    by (simp_all add: expected_source_def covers_def extract_for_def example_dependency_def
        quadtree_def mk_tile_def geodetic_def)
  note inst = below_baselevels_resamples_children[OF 1 2 3, of quadtree]
  from inst[of example_dependency] have c1: "fst (TileTask__execute quadtree t example_dependency) = []"
    by (rule conjunct1)
  from inst[of example_dependency "[]"] 9(1) have
    "\<exists>src. snd (TileTask__execute quadtree t example_dependency) =
             Inr (Resampled (Mosaic src (rd_nodata example_reader)) None (tile t)
                    (bl_lower example_baselevels) (rd_nodata example_reader))
           \<and> (\<forall>k. map_of src k =
                  expected_source quadtree (rd_pyramid example_reader) (map snd example_dependency)
                    (child_tiles quadtree example_reader example_baselevels (tile t)) k)"
    by (simp only: 4 option.case if_False) blast
  then obtain src where
    s0: "snd (TileTask__execute quadtree t example_dependency) =
             Inr (Resampled (Mosaic src 0) None (mk_tile 1 0 1) ''bilinear'' 0)"
    and s2: "\<forall>k. map_of src k =
                  expected_source quadtree geodetic (map snd example_dependency)
                    [mk_tile 2 0 2, mk_tile 2 0 3, mk_tile 2 1 3, mk_tile 2 1 2] k"
    unfolding 6 7 8 by blast
  from c1 s0 have s1: "TileTask__execute quadtree t example_dependency
           = ([], Inr (Resampled (Mosaic src 0) None (mk_tile 1 0 1) ''bilinear'' 0))"
    by (simp add: prod_eq_iff)
  from inst[of example_preprocessing_result] have
    c2: "fst (TileTask__execute quadtree t example_preprocessing_result) = []"
    by (rule conjunct1)
  from inst[of example_preprocessing_result "[]"] 9(2) have
    "snd (TileTask__execute quadtree t example_preprocessing_result) = Inl AttributeError"
    by (simp only: 4 option.case if_True)
  with c2 have b: "TileTask__execute quadtree t example_preprocessing_result
                     = ([], Inl AttributeError)"
    by (simp add: prod_eq_iff)
  have "\<exists>src. TileTask__execute quadtree t example_dependency
           = ([], Inr (Resampled (Mosaic src 0) None (mk_tile 1 0 1) ''bilinear'' 0))
         \<and> map_of src (mk_tile 2 0 2) =
             Some (Extracted (PArray ''c'') (mk_tile 2 0 2) (mk_tile 2 0 2))
         \<and> map_of src (mk_tile 2 0 3) = Some (Stored (mk_tile 2 0 3))
         \<and> map_of src (mk_tile 2 1 3) = Some (Stored (mk_tile 2 1 3))
         \<and> map_of src (mk_tile 2 1 2) = Some (Stored (mk_tile 2 1 2))
         \<and> map_of src (mk_tile 2 0 0) = None"
    using s1 s2[rule_format] e by (intro exI[where x = src]) simp
  with b show ?thesis unfolding t_def by simp
qed



lemma example_run_value:
  "execute_tile_task_wrapper quadtree (projr (example_task ''continue'' None False t)) None =
     (if zoom t \<in> {1, 2, 3}
      then ([\<lparr> pc_tile = t, pc_params = [], pc_input = [], pc_output_params = [] \<rparr>],
            if odd (col t) \<or> row t = 7 then Inr Empty_marker
            else Inr (Info \<lparr> ti_id = None, ti_output = PArray ''data'', ti_processed = True,
                              ti_tile = Some t \<rparr>))
      else ([], Inr Empty_marker))"
  by (simp add: example_task_value execute_tile_task_wrapper_def TileTask_execute_def
        TileTask__execute_def run_process_def mode_ok_def list_or_empty_def example_process_def
        Let_def)

text \<open>
  Claim C8, as the code has it. A \<open>TileTask\<close> constructed with \<open>skip = True\<close> carries no
  input or output bindings, no process and no output reader, and its mode is unset; so
  executing it raises \<open>ValueError\<close> at the mode test (not the no-data exception, and the
  wrapper does not turn it into \<open>"empty"\<close>) and the user process is never called.
\<close>

theorem skipped_task_raises_ValueError:
  "TileTask_init L uuid obj default_id bbox tile_arg id_arg cfg fn True = Inr t \<Longrightarrow>
     skip t \<and> input t = [] \<and> process_func_params t = [] \<and> output_params t = []
     \<and> output_reader t = None \<and> process t = None \<and> mode t = None
     \<and> TileTask_execute M t d = ([], Inl ValueError)
     \<and> execute_tile_task_wrapper M t d = ([], Inl ValueError)"
  by (auto simp: TileTask_init_def Let_def task.extend_def tile_task.fields_def
        TileTask_execute_def execute_tile_task_wrapper_def mode_ok_def
        split: sum.splits)

text \<open>The claim as written (execution raises no-data) fails for a skipped task.\<close>

theorem skipped_task_raises_nodata_counterexample:
  "\<exists>t. example_task ''continue'' None True (mk_tile 2 1 2) = Inr t \<and> skip t
       \<and> snd (TileTask_execute quadtree t None) \<noteq> Inl MapcheteNodataTile
       \<and> snd (execute_tile_task_wrapper quadtree t None) \<noteq> Inr Empty_marker"
  by (simp add: example_task_value TileTask_execute_def execute_tile_task_wrapper_def mode_ok_def)

theorem skipped_task_raises_ValueError_witness:
  "\<exists>t. example_task ''continue'' None True (mk_tile 2 1 2) = Inr t \<and> skip t \<and> input t = []
       \<and> output_params t = [] \<and> process t = None
       \<and> execute_tile_task_wrapper quadtree t None = ([], Inl ValueError)"
proof -
  define t where "t = projr (example_task ''continue'' None True (mk_tile 2 1 2))"
  have ex: "example_task ''continue'' None True (mk_tile 2 1 2) = Inr t"
    unfolding t_def by (simp add: example_task_value)
  then have init:
    "TileTask_init rect_lib ''0f'' 1 ''tile_task'' (Rectangle (quad_bounds (mk_tile 2 1 2)))
       (mk_tile 2 1 2) None (Some (example_config ''continue'' None)) None True = Inr t"
    by (simp add: example_task_def)
  from skipped_task_raises_ValueError[OF init, of quadtree None] ex
  show ?thesis by blast
qed




section \<open>Properties of task construction\<close>

text \<open>
  Claim C9, as the code has it. \<open>Task.__init__\<close> tests its arguments for truth, so an
  argument is given when it is not \<open>None\<close> and Python holds it true. With both a
  geometry and bounds given, construction raises \<open>ValueError\<close>. With the geometry alone,
  the bounds are the validated bounds of the shape; with the bounds alone, the geometry
  is the box of the validated bounds. With neither, both stay unset. Whenever
  construction succeeds, geometry and bounds are both set or both unset.
\<close>

theorem Task_init_geometry_and_bounds:
  "(given_geometry L g = Some x \<and> given_bounds b = Some y \<longrightarrow>
      Task_init L uuid obj i f a k d r g b = Inl ValueError)
   \<and> (given_geometry L g = Some x \<and> given_bounds b = None \<and> to_shape L x = Inr s
        \<and> validate_bounds L (geom_bounds L s) = Inr v \<longrightarrow>
        (\<exists>t. Task_init L uuid obj i f a k d r g b = Inr t
             \<and> geometry t = Some s \<and> bounds t = Some v))
   \<and> (given_geometry L g = None \<and> given_bounds b = Some y \<and> validate_bounds L y = Inr v \<longrightarrow>
        (\<exists>t. Task_init L uuid obj i f a k d r g b = Inr t
             \<and> bounds t = Some v \<and> geometry t = Some (box L v)))
   \<and> (given_geometry L g = None \<and> given_bounds b = None \<longrightarrow>
        (\<exists>t. Task_init L uuid obj i f a k d r g b = Inr t
             \<and> geometry t = None \<and> bounds t = None))
   \<and> (\<forall>t. Task_init L uuid obj i f a k d r g b = Inr t \<longrightarrow>
          (geometry t = None \<longleftrightarrow> bounds t = None))"
  by (auto simp: Task_init_def Let_def split: option.splits sum.splits)

text \<open>
  The claim as written fails where an argument is passed but false: an empty geometry
  together with bounds, or a geometry together with an empty bounds sequence, constructs
  a task without error, and an empty geometry alone leaves the task non-spatial.
\<close>

theorem Task_init_both_given_counterexample:
  "(\<exists>t. Task_init rect_lib ''0f'' 1 None None None None None None
            (Some Empty_polygon) (Some [0, 0, 1, 1]) = Inr t
        \<and> bounds t = Some (0, 0, 1, 1) \<and> geometry t = Some (Rectangle (0, 0, 1, 1)))
   \<and> (\<exists>t. Task_init rect_lib ''0f'' 1 None None None None None None
            (Some (Rectangle (0, 0, 1, 1))) (Some []) = Inr t
        \<and> bounds t = Some (0, 0, 1, 1))
   \<and> (\<exists>t. Task_init rect_lib ''0f'' 1 None None None None None None
            (Some Empty_polygon) None = Inr t
        \<and> bounds t = None \<and> geometry t = None)"
  by (simp add: Task_init_def Let_def given_geometry_def given_bounds_def rect_lib_def
        str_or_def list_or_empty_def)

theorem Task_init_geometry_and_bounds_witness:
  "Task_init rect_lib ''0f'' 1 None None None None None None
      (Some (Rectangle (0, 0, 1, 1))) (Some [2, 2, 3, 3]) = Inl ValueError
   \<and> (\<exists>t. Task_init rect_lib ''0f'' 1 None None None None None None
            (Some (Rectangle (0, 0, 1, 1))) None = Inr t
          \<and> geometry t = Some (Rectangle (0, 0, 1, 1)) \<and> bounds t = Some (0, 0, 1, 1))
   \<and> (\<exists>t. Task_init rect_lib ''0f'' 1 None None None None None None
            None (Some [2, 2, 3, 3]) = Inr t
          \<and> bounds t = Some (2, 2, 3, 3) \<and> geometry t = Some (Rectangle (2, 2, 3, 3)))
   \<and> (\<exists>t. Task_init rect_lib ''0f'' 1 None None None None None None None None = Inr t
          \<and> geometry t = None \<and> bounds t = None)"
proof -
  have g: "given_geometry rect_lib (Some (Rectangle (0, 0, 1, 1))) = Some (Rectangle (0, 0, 1, 1))"
    "given_geometry rect_lib None = None"
    by (simp_all add: given_geometry_def rect_lib_def)
  have b: "given_bounds (Some [2, 2, 3, 3]) = Some [2, 2, 3, 3]" "given_bounds None = None"
    by (simp_all add: given_bounds_def)
  have l: "to_shape rect_lib (Rectangle (0, 0, 1, 1)) = Inr (Rectangle (0, 0, 1, 1))"
    "validate_bounds rect_lib (geom_bounds rect_lib (Rectangle (0, 0, 1, 1))) = Inr (0, 0, 1, 1)"
    "validate_bounds rect_lib [2, 2, 3, 3] = Inr (2, 2, 3, 3)"
    "box rect_lib (2, 2, 3, 3) = Rectangle (2, 2, 3, 3)"
    by (simp_all add: rect_lib_def)
  show ?thesis
    using Task_init_geometry_and_bounds
            [of rect_lib "Some (Rectangle (0, 0, 1, 1))" "Rectangle (0, 0, 1, 1)"
                "Some [2, 2, 3, 3]" "[2, 2, 3, 3]" "''0f''" 1 None None None None None None]
          Task_init_geometry_and_bounds
            [of rect_lib "Some (Rectangle (0, 0, 1, 1))" "Rectangle (0, 0, 1, 1)"
                None "[]" "''0f''" 1 None None None None None None
                "Rectangle (0, 0, 1, 1)" "(0, 0, 1, 1)"]
          Task_init_geometry_and_bounds
            [of rect_lib None "Rectangle (0, 0, 1, 1)"
                "Some [2, 2, 3, 3]" "[2, 2, 3, 3]" "''0f''" 1 None None None None None None
                "Rectangle (0, 0, 1, 1)" "(2, 2, 3, 3)"]
          Task_init_geometry_and_bounds
            [of rect_lib None "Rectangle (0, 0, 1, 1)"
                None "[]" "''0f''" 1 None None None None None None]
          g b l
    by simp
qed

section \<open>Properties of task batches\<close>


lemma map_of_fold_update_tile:
  assumes "\<forall>(k, v) \<in> set acc. tile v = k"
  shows "\<forall>(k, v) \<in> set (fold (\<lambda>item d. AList.update (tile item) item d) tts acc). tile v = k"
  using assms
proof (induction tts arbitrary: acc)
  case Nil
  then show ?case by simp
next
  case (Cons a tts)
  have "\<forall>(k, v) \<in> set (AList.update (tile a) a acc). tile v = k"
    using Cons.prems set_update_entries[of "tile a" a acc] by auto
  from Cons.IH[OF this] show ?case by simp
qed

lemma fold_update_members:
  "snd ` set (fold (\<lambda>item d. AList.update (tile item) item d) tts acc) \<subseteq> set tts \<union> snd ` set acc"
proof (induction tts arbitrary: acc)
  case Nil
  then show ?case by simp
next
  case (Cons a tts)
  have "snd ` set (AList.update (tile a) a acc) \<subseteq> insert a (snd ` set acc)"
    using set_update_entries[of "tile a" a acc] by force
  with Cons.IH[of "AList.update (tile a) a acc"] show ?case by auto
qed

lemma validate_items_zoom:
  "validate_items tp z items = Inr (tts, tp', z') \<Longrightarrow>
     (\<forall>t \<in> set tts. Some (zoom (tile t)) = z') \<and> (z \<noteq> None \<longrightarrow> z' = z)
     \<and> set (map ATileTask tts) = set items"
proof (induction tp z items arbitrary: tts tp' z' rule: validate_items.induct)
  case (1 tp z)
  then show ?case by simp
next
  case (2 tp z t items)
  then show ?case by simp
next
  case (3 tp z item items)
  from "3.prems" obtain rest where
    ok: "\<not> (tp \<noteq> None \<and> tp \<noteq> Some (buffered_tp (tile item)))"
        "\<not> (z \<noteq> None \<and> z \<noteq> Some (zoom (tile item)))"
    and rec: "validate_items (Some (buffered_tp (tile item))) (Some (zoom (tile item))) items
               = Inr (rest, tp', z')"
    and tts: "tts = item # rest"
    by (auto split: if_splits sum.splits)
  from "3.IH"[OF ok rec] have
    ih: "(\<forall>t \<in> set rest. Some (zoom (tile t)) = z')" "z' = Some (zoom (tile item))"
        "set (map ATileTask rest) = set items"
    by auto
  with ok tts show ?case by auto
qed

lemma tiles_in_batch_props:
  assumes "\<forall>(k, v) \<in> set (ttb_tasks b). tile v = k"
  shows "map tile (tiles_in_batch b cs) = filter (\<lambda>c. c \<in> fst ` set (ttb_tasks b)) cs
     \<and> set (tiles_in_batch b cs) \<subseteq> snd ` set (ttb_tasks b)"
proof (induction cs)
  case Nil
  then show ?case by (simp add: tiles_in_batch_def List.map_filter_simps)
next
  case (Cons c cs)
  show ?case
  proof (cases "map_of (ttb_tasks b) c")
    case None
    then have "c \<notin> fst ` set (ttb_tasks b)" by (simp add: map_of_eq_None_iff)
    with None Cons show ?thesis by (simp add: tiles_in_batch_def List.map_filter_simps)
  next
    case (Some v)
    then have m: "(c, v) \<in> set (ttb_tasks b)" by (rule map_of_SomeD)
    with assms have "tile v = c" by auto
    moreover from m have "c \<in> fst ` set (ttb_tasks b)" by force
    moreover from m have "v \<in> snd ` set (ttb_tasks b)" by force
    ultimately show ?thesis using Some Cons
      by (simp add: tiles_in_batch_def List.map_filter_simps)
  qed
qed

text \<open>
  Claim C3, as the code has it. For a \<open>TileTaskBatch\<close> at zoom \<open>z\<close>, \<open>intersection\<close> with
  a \<open>TileTask\<close> whose zoom is \<open>z - 1\<close> returns the tasks of the batch that sit at the
  children of the argument's tile, in the order in which \<open>get_children\<close> lists the
  children and at most one per child; with a tile task of any other zoom (\<open>z + 1\<close>
  included) it raises \<open>ValueError\<close>; with an argument that is neither a task nor
  bounds it raises \<open>TypeError\<close>.
\<close>

theorem TileTaskBatch_intersection_children:
  assumes init: "TileTaskBatch_init M uuid items id_arg func_arg fkwargs_arg = Inr b"
    and z: "ttb_zoom b = Some z"
  shows "(zoom (tile other) + 1 = z \<longrightarrow>
           (\<exists>rs. TileTaskBatch_intersection M b (ArgTask (ATileTask other)) = Inr rs
              \<and> map tile rs = filter (\<lambda>c. c \<in> fst ` set (ttb_tasks b)) (get_children M (tile other))
              \<and> set (map ATileTask rs) \<subseteq> set items
              \<and> length rs \<le> length (get_children M (tile other))))
       \<and> (zoom (tile other) + 1 \<noteq> z \<longrightarrow>
            TileTaskBatch_intersection M b (ArgTask (ATileTask other)) = Inl ValueError)
       \<and> TileTaskBatch_intersection M b ArgOther = Inl TypeError"
proof -
  from init obtain tts tp z' where
    v: "validate_items None None items = Inr (tts, tp, z')"
    and tasks: "ttb_tasks b = fold (\<lambda>item d. AList.update (tile item) item d) tts []"
    by (auto simp: TileTaskBatch_init_def Let_def split: sum.splits)
  have keyed: "\<forall>(k, v) \<in> set (ttb_tasks b). tile v = k"
    unfolding tasks by (rule map_of_fold_update_tile) simp
  have members: "snd ` set (ttb_tasks b) \<subseteq> set tts"
    unfolding tasks using fold_update_members[of tts "[]"] by simp
  from validate_items_zoom[OF v] have items: "set (map ATileTask tts) = set items" by simp
  let ?rs = "tiles_in_batch b (get_children M (tile other))"
  from tiles_in_batch_props[OF keyed, of "get_children M (tile other)"]
  have p: "map tile ?rs = filter (\<lambda>c. c \<in> fst ` set (ttb_tasks b)) (get_children M (tile other))"
    "set ?rs \<subseteq> snd ` set (ttb_tasks b)"
    by simp_all
  have len: "length ?rs \<le> length (get_children M (tile other))"
    using arg_cong[OF p(1), of length] by simp
  have sub: "set (map ATileTask ?rs) \<subseteq> set items"
    using p(2) members items by auto
  show ?thesis
    using z p(1) len sub by (auto simp: TileTaskBatch_intersection_def)
qed


lemma example_tile_task_init:
  "name \<noteq> [] \<Longrightarrow>
   TileTask_init rect_lib ''0f'' obj ''tile_task'' (Rectangle (quad_bounds t)) t (Some name)
     (Some (example_config ''continue'' (Some example_baselevels))) None False =
   (if zoom t \<in> {1, 2, 3} then Inr (example_tile_task obj name t)
    else Inr ((example_tile_task obj name t)\<lparr> output_params := [] \<rparr>))"
  by (cases "quad_bounds t")
     (simp add: example_tile_task_def TileTask_init_def Task_init_def str_or_def given_geometry_def
        given_bounds_def rect_lib_def example_config_def list_or_empty_def Let_def
        task.extend_def tile_task.fields_def example_reader_def split: option.splits)

lemma example_zoom2_validate:
  "validate_items None None example_zoom2_tasks =
     Inr ([example_tile_task 1 ''A'' (mk_tile 2 0 0), example_tile_task 2 ''B'' (mk_tile 2 1 2),
           example_tile_task 3 ''C'' (mk_tile 2 0 2), example_tile_task 4 ''D'' (mk_tile 2 1 3)],
          Some geodetic, Some 2)"
  by (simp add: example_zoom2_tasks_def example_tile_task_def mk_tile_def)

lemma example_zoom2_batch:
  "\<exists>b. TileTaskBatch_init quadtree ''0f'' example_zoom2_tasks (Some ''zoom-2'') None None = Inr b
       \<and> ttb_zoom b = Some 2
       \<and> ttb_tasks b =
           [(mk_tile 2 0 0, example_tile_task 1 ''A'' (mk_tile 2 0 0)),
            (mk_tile 2 1 2, example_tile_task 2 ''B'' (mk_tile 2 1 2)),
            (mk_tile 2 0 2, example_tile_task 3 ''C'' (mk_tile 2 0 2)),
            (mk_tile 2 1 3, example_tile_task 4 ''D'' (mk_tile 2 1 3))]"
  apply (simp add: TileTaskBatch_init_def example_zoom2_validate Let_def)
  apply (simp add: example_tile_task_def mk_tile_def)
  done

text \<open>
  The claim as written (an argument at zoom \<open>z + 1\<close>) fails: for the batch at zoom 2 a
  tile task at zoom 3 raises \<open>ValueError\<close>.
\<close>

theorem TileTaskBatch_intersection_next_zoom_counterexample:
  "\<exists>b. TileTaskBatch_init quadtree ''0f'' example_zoom2_tasks (Some ''zoom-2'') None None = Inr b
       \<and> ttb_zoom b = Some 2
       \<and> zoom (tile (example_tile_task 9 ''X'' (mk_tile 3 0 4))) = 2 + 1
       \<and> TileTaskBatch_intersection quadtree b
            (ArgTask (ATileTask (example_tile_task 9 ''X'' (mk_tile 3 0 4)))) = Inl ValueError"
proof -
  from example_zoom2_batch obtain b where
    b: "TileTaskBatch_init quadtree ''0f'' example_zoom2_tasks (Some ''zoom-2'') None None = Inr b"
       "ttb_zoom b = Some 2"
    by blast
  have "zoom (tile (example_tile_task 9 ''X'' (mk_tile 3 0 4))) = 2 + 1"
    by (simp add: example_tile_task_def mk_tile_def)
  moreover have "TileTaskBatch_intersection quadtree b
            (ArgTask (ATileTask (example_tile_task 9 ''X'' (mk_tile 3 0 4)))) = Inl ValueError"
    using b(2) by (simp add: TileTaskBatch_intersection_def example_tile_task_def mk_tile_def)
  ultimately show ?thesis using b by blast
qed

theorem TileTaskBatch_intersection_children_witness:
  "\<exists>b rs. TileTaskBatch_init quadtree ''0f'' example_zoom2_tasks (Some ''zoom-2'') None None = Inr b
       \<and> TileTaskBatch_intersection quadtree b
            (ArgTask (ATileTask (example_tile_task 9 ''X'' (mk_tile 1 0 1)))) = Inr rs
       \<and> map tile rs = [mk_tile 2 0 2, mk_tile 2 1 3, mk_tile 2 1 2]
       \<and> TileTaskBatch_intersection quadtree b ArgOther = Inl TypeError"
proof -
  from example_zoom2_batch obtain b where
    b: "TileTaskBatch_init quadtree ''0f'' example_zoom2_tasks (Some ''zoom-2'') None None = Inr b"
       "ttb_zoom b = Some 2"
       "ttb_tasks b =
           [(mk_tile 2 0 0, example_tile_task 1 ''A'' (mk_tile 2 0 0)),
            (mk_tile 2 1 2, example_tile_task 2 ''B'' (mk_tile 2 1 2)),
            (mk_tile 2 0 2, example_tile_task 3 ''C'' (mk_tile 2 0 2)),
            (mk_tile 2 1 3, example_tile_task 4 ''D'' (mk_tile 2 1 3))]"
    by blast
  have zm: "zoom (tile (example_tile_task 9 ''X'' (mk_tile 1 0 1))) + 1 = 2"
    by (simp add: example_tile_task_def mk_tile_def)
  have ch: "filter (\<lambda>c. c \<in> fst ` set (ttb_tasks b))
              (get_children quadtree (tile (example_tile_task 9 ''X'' (mk_tile 1 0 1))))
            = [mk_tile 2 0 2, mk_tile 2 1 3, mk_tile 2 1 2]"
    unfolding b(3)
    by (simp add: example_tile_task_def mk_tile_def quadtree_def quad_children_def)
  from TileTaskBatch_intersection_children[OF b(1) b(2),
         of "example_tile_task 9 ''X'' (mk_tile 1 0 1)"] zm
  obtain rs where
    "TileTaskBatch_intersection quadtree b
       (ArgTask (ATileTask (example_tile_task 9 ''X'' (mk_tile 1 0 1)))) = Inr rs"
    "map tile rs = filter (\<lambda>c. c \<in> fst ` set (ttb_tasks b))
              (get_children quadtree (tile (example_tile_task 9 ''X'' (mk_tile 1 0 1))))"
    "TileTaskBatch_intersection quadtree b ArgOther = Inl TypeError"
    by blast
  with b(1) ch show ?thesis by auto
qed

section \<open>Properties of the task graph\<close>


lemma keyed_lookup: "keyed tasks \<Longrightarrow> map_of tasks k = Some n \<Longrightarrow> oid_of (d_task n) = k"
  unfolding keyed_def by (auto dest: map_of_SomeD)

lemma keyed_update:
  "keyed tasks \<Longrightarrow> oid_of (d_task n) = k \<Longrightarrow> keyed (AList.update k n tasks)"
  unfolding keyed_def using set_update_entries[of k n tasks] by auto

lemma update_fresh: "k \<notin> fst ` set al \<Longrightarrow> AList.update k v al = al @ [(k, v)]"
  by (induction al) auto

lemma dependencies_dict_exact:
  assumes "dependencies_dict tasks children acc = Inr deps" "distinct (map fst acc)"
  shows "distinct (map fst deps)
     \<and> fst ` set deps = fst ` set acc \<union> id_of ` set children
     \<and> (\<forall>(k, n) \<in> set deps. (k, n) \<in> set acc
           \<or> (\<exists>c \<in> set children. id_of c = k \<and> map_of tasks (oid_of c) = Some n))"
  using assms
proof (induction children arbitrary: acc)
  case Nil
  then show ?case by auto
next
  case (Cons c cs)
  from Cons.prems(1) obtain node where
    node: "map_of tasks (oid_of c) = Some node"
    and rec: "dependencies_dict tasks cs (AList.update (id_of c) node acc) = Inr deps"
    by (auto split: option.splits)
  have d: "distinct (map fst (AList.update (id_of c) node acc))"
    using Cons.prems(2) by (simp add: distinct_update)
  from Cons.IH[OF rec d] have
    ih1: "distinct (map fst deps)"
    and ih2: "fst ` set deps = fst ` set (AList.update (id_of c) node acc) \<union> id_of ` set cs"
    and ih3: "\<forall>(k, n) \<in> set deps. (k, n) \<in> set (AList.update (id_of c) node acc)
           \<or> (\<exists>c \<in> set cs. id_of c = k \<and> map_of tasks (oid_of c) = Some n)"
    by auto
  have "fst ` set deps = fst ` set acc \<union> id_of ` set (c # cs)"
    using ih2 by (auto simp: keys_update)
  moreover have "\<forall>(k, n) \<in> set deps. (k, n) \<in> set acc
           \<or> (\<exists>c' \<in> set (c # cs). id_of c' = k \<and> map_of tasks (oid_of c') = Some n)"
  proof (intro ballI)
    fix e assume e: "e \<in> set deps"
    obtain k n where kn: "e = (k, n)" by (cases e)
    from ih3 e kn have "(k, n) \<in> set (AList.update (id_of c) node acc)
           \<or> (\<exists>c \<in> set cs. id_of c = k \<and> map_of tasks (oid_of c) = Some n)" by auto
    then show "case e of (k, n) \<Rightarrow> (k, n) \<in> set acc
           \<or> (\<exists>c' \<in> set (c # cs). id_of c' = k \<and> map_of tasks (oid_of c') = Some n)"
      using set_update_entries[of "id_of c" node acc] node kn by auto
  qed
  ultimately show ?case using ih1 by blast
qed

lemma task_dependencies_values:
  assumes "task_dependencies M X previous tasks t = Inr deps"
  shows "snd ` set deps \<subseteq> snd ` set tasks"
proof (cases previous)
  case None
  with assms show ?thesis by (simp add: task_dependencies_def)
next
  case (Some prev)
  show ?thesis
  proof (cases "length (batch_values prev) = 0")
    case True
    with Some assms show ?thesis by (simp add: task_dependencies_def)
  next
    case False
    with Some assms obtain children where
      dd: "dependencies_dict tasks children [] = Inr deps"
      by (auto simp: task_dependencies_def split: sum.splits)
    from dependencies_dict_exact[OF dd] have
      "\<forall>(k, n) \<in> set deps. \<exists>c \<in> set children. id_of c = k \<and> map_of tasks (oid_of c) = Some n"
      by auto
    then show ?thesis
      by (force dest: map_of_SomeD)
  qed
qed

lemma task_dependencies_exact:
  assumes "keyed tasks" "task_dependencies M X previous tasks t = Inr deps"
  shows "exact_dependencies M X previous t deps"
proof (cases previous)
  case None
  with assms(2) show ?thesis by (simp add: task_dependencies_def exact_dependencies_def)
next
  case (Some prev)
  show ?thesis
  proof (cases "batch_values prev = []")
    case True
    with Some assms(2) show ?thesis
      by (simp add: task_dependencies_def exact_dependencies_def)
  next
    case False
    with Some assms(2) obtain children where
      ch: "batch_intersection M X prev (ArgTask t) = Inr children"
      and dd: "dependencies_dict tasks children [] = Inr deps"
      by (auto simp: task_dependencies_def split: sum.splits)
    from dependencies_dict_exact[OF dd] have
      1: "distinct (map fst deps)" and 2: "fst ` set deps = id_of ` set children"
      and 3: "\<forall>(k, n) \<in> set deps. \<exists>c \<in> set children. id_of c = k
                  \<and> map_of tasks (oid_of c) = Some n"
      by auto
    from 3 have "\<forall>(k, n) \<in> set deps. \<exists>c \<in> set children. id_of c = k
                  \<and> oid_of c = oid_of (d_task n)"
      using keyed_lookup[OF assms(1)] by fastforce
    with 1 2 show ?thesis
      using Some False ch
      by (auto simp: exact_dependencies_def list_all_iff list_ex_iff)
  qed
qed

lemma built_intro:
  assumes "i < length batches" "t \<in> set (batch_values (batches ! i))"
    "exact_dependencies M X (previous_of batches i) t deps"
    "\<forall>v \<in> snd ` set deps. built M X pw tw batches v"
  shows "built M X pw tw batches
           (Delayed (batch_task_func pw tw (batches ! i)) (id_of t) (length deps > 0) t deps
              (batch_fkwargs (batches ! i)) (result_key_name_of t))"
proof -
  have "list_ex (\<lambda>j. t \<in> set (batch_values (batches ! j))
                   \<and> batch_task_func pw tw (batches ! i) = batch_task_func pw tw (batches ! j)
                   \<and> batch_fkwargs (batches ! i) = batch_fkwargs (batches ! j)
                   \<and> exact_dependencies M X (previous_of batches j) t deps)
              [0 ..< length batches]"
    unfolding list_ex_iff using assms(1,2,3) by (intro bexI[where x = i]) simp_all
  moreover have "list_all (\<lambda>e. built M X pw tw batches (snd e)) deps"
    unfolding list_all_iff using assms(4) by simp
  ultimately show ?thesis by simp
qed

lemma convert_tasks_inv:
  assumes "convert_tasks M X (batch_task_func pw tw (batches ! i)) (batch_fkwargs (batches ! i))
             (previous_of batches i) ts tasks = Inr tasks'"
    "keyed tasks" "\<forall>(k, n) \<in> set tasks. built M X pw tw batches n"
    "i < length batches" "set ts \<subseteq> set (batch_values (batches ! i))"
  shows "keyed tasks' \<and> (\<forall>(k, n) \<in> set tasks'. built M X pw tw batches n)
     \<and> fst ` set tasks' = fst ` set tasks \<union> oid_of ` set ts"
  using assms(1,2,3,5)
proof (induction ts arbitrary: tasks)
  case Nil
  then show ?case by simp
next
  case (Cons t ts)
  let ?f = "batch_task_func pw tw (batches ! i)"
  let ?kw = "batch_fkwargs (batches ! i)"
  from Cons.prems(1) obtain deps where
    deps: "task_dependencies M X (previous_of batches i) tasks t = Inr deps"
    and rec: "convert_tasks M X ?f ?kw (previous_of batches i) ts
                (AList.update (oid_of t)
                   (Delayed ?f (id_of t) (length deps > 0) t deps ?kw (result_key_name_of t)) tasks)
              = Inr tasks'"
    by (auto split: sum.splits)
  let ?n = "Delayed ?f (id_of t) (length deps > 0) t deps ?kw (result_key_name_of t)"
  let ?tasks = "AList.update (oid_of t) ?n tasks"
  have k: "keyed ?tasks" using Cons.prems(2) by (simp add: keyed_update)
  have vals: "\<forall>v \<in> snd ` set deps. built M X pw tw batches v"
  proof
    fix v assume "v \<in> snd ` set deps"
    with task_dependencies_values[OF deps] have "v \<in> snd ` set tasks" by blast
    then obtain k where "(k, v) \<in> set tasks" by force
    with Cons.prems(3) show "built M X pw tw batches v" by blast
  qed
  from Cons.prems(4) have mem: "t \<in> set (batch_values (batches ! i))" by simp
  have "built M X pw tw batches ?n"
    by (rule built_intro[OF assms(4) mem task_dependencies_exact[OF Cons.prems(2) deps] vals])
  then have ok: "\<forall>(k, n) \<in> set ?tasks. built M X pw tw batches n"
    using Cons.prems(3) set_update_entries[of "oid_of t" ?n tasks] by auto
  from Cons.prems(4) have sub: "set ts \<subseteq> set (batch_values (batches ! i))" by simp
  from Cons.IH[OF rec k ok sub] show ?case by (auto simp: keys_update)
qed

lemma convert_batches_inv:
  assumes "convert_batches M X pw tw (previous_of batches i) bs tasks = Inr tasks'"
    "drop i batches = bs"
    "keyed tasks" "\<forall>(k, n) \<in> set tasks. built M X pw tw batches n"
    "\<forall>j < i. oid_of ` set (batch_values (batches ! j)) \<subseteq> fst ` set tasks"
  shows "keyed tasks' \<and> (\<forall>(k, n) \<in> set tasks'. built M X pw tw batches n)
     \<and> (\<forall>j < length batches. oid_of ` set (batch_values (batches ! j)) \<subseteq> fst ` set tasks')"
  using assms
proof (induction bs arbitrary: i tasks)
  case Nil
  then have "length batches \<le> i" by simp
  with Nil show ?case by auto
next
  case (Cons b bs)
  from Cons.prems(2) have i: "i < length batches"
    by (cases "i < length batches") auto
  from Cons.prems(2) have b: "batches ! i = b"
    by (rule nth_via_drop)
  have "drop (Suc i) batches = tl (drop i batches)"
    by (simp add: drop_Suc tl_drop)
  with Cons.prems(2) have dr: "drop (Suc i) batches = bs" by simp
  from Cons.prems(1) obtain mid where
    ct: "convert_tasks M X (batch_task_func pw tw b) (batch_fkwargs b) (previous_of batches i)
           (batch_values b) tasks = Inr mid"
    and rec: "convert_batches M X pw tw (Some b) bs mid = Inr tasks'"
    by (auto simp: Let_def batch_task_func_def split: sum.splits)
  have prev: "previous_of batches (Suc i) = Some b"
    using b by (simp add: previous_of_def)
  from ct b have ct': "convert_tasks M X (batch_task_func pw tw (batches ! i))
           (batch_fkwargs (batches ! i)) (previous_of batches i) (batch_values b) tasks = Inr mid"
    by simp
  have sub: "set (batch_values b) \<subseteq> set (batch_values (batches ! i))" using b by simp
  from convert_tasks_inv[OF ct' Cons.prems(3,4) i sub] have
    m1: "keyed mid" and m2: "\<forall>(k, n) \<in> set mid. built M X pw tw batches n"
    and m3: "fst ` set mid = fst ` set tasks \<union> oid_of ` set (batch_values b)"
    by auto
  have m4: "\<forall>j < Suc i. oid_of ` set (batch_values (batches ! j)) \<subseteq> fst ` set mid"
  proof (intro allI impI)
    fix j assume "j < Suc i"
    then consider "j < i" | "j = i" by linarith
    then show "oid_of ` set (batch_values (batches ! j)) \<subseteq> fst ` set mid"
    proof cases
      case 1
      with Cons.prems(5) m3 show ?thesis by blast
    next
      case 2
      with b m3 show ?thesis by blast
    qed
  qed
  from Cons.IH[of "Suc i" mid] rec prev dr m1 m2 m4 show ?case by simp
qed
lemma convert_tasks_fresh:
  assumes "convert_tasks M X f kw prev ts tasks = Inr tasks'"
    "distinct (map oid_of ts)" "oid_of ` set ts \<inter> fst ` set tasks = {}"
    "closed tasks"
  shows "map (\<lambda>e. d_task (snd e)) tasks' = map (\<lambda>e. d_task (snd e)) tasks @ ts
     \<and> fst ` set tasks' = fst ` set tasks \<union> oid_of ` set ts
     \<and> closed tasks'"
  using assms
proof (induction ts arbitrary: tasks)
  case Nil
  then show ?case by simp
next
  case (Cons t ts)
  from Cons.prems(1) obtain deps where
    deps: "task_dependencies M X prev tasks t = Inr deps"
    and rec: "convert_tasks M X f kw prev ts
                (AList.update (oid_of t)
                   (Delayed f (id_of t) (length deps > 0) t deps kw (result_key_name_of t)) tasks)
              = Inr tasks'"
    by (auto split: sum.splits)
  let ?n = "Delayed f (id_of t) (length deps > 0) t deps kw (result_key_name_of t)"
  from Cons.prems(3) have fresh: "oid_of t \<notin> fst ` set tasks" by auto
  have upd: "AList.update (oid_of t) ?n tasks = tasks @ [(oid_of t, ?n)]"
    by (rule update_fresh[OF fresh])
  from rec upd have rec': "convert_tasks M X f kw prev ts (tasks @ [(oid_of t, ?n)]) = Inr tasks'"
    by simp
  from Cons.prems(2) have d: "distinct (map oid_of ts)" and nt: "oid_of t \<notin> oid_of ` set ts"
    by auto
  have dis: "oid_of ` set ts \<inter> fst ` set (tasks @ [(oid_of t, ?n)]) = {}"
    using Cons.prems(3) nt by auto
  have cl: "closed (tasks @ [(oid_of t, ?n)])"
    unfolding closed_def
  proof (intro ballI)
    fix e assume e: "e \<in> set (tasks @ [(oid_of t, ?n)])"
    obtain k n where kn: "e = (k, n)" by (cases e)
    have "snd ` set (d_dependencies n) \<subseteq> snd ` set tasks"
    proof (cases "(k, n) \<in> set tasks")
      case True
      with Cons.prems(4) show ?thesis unfolding closed_def by blast
    next
      case False
      with e kn have "n = ?n" by simp
      with task_dependencies_values[OF deps] show ?thesis by simp
    qed
    then have "snd ` set (d_dependencies n) \<subseteq> snd ` set (tasks @ [(oid_of t, ?n)])"
      by auto
    with kn show "case e of (k, n) \<Rightarrow>
        snd ` set (d_dependencies n) \<subseteq> snd ` set (tasks @ [(oid_of t, ?n)])" by simp
  qed
  from Cons.IH[OF rec' d dis cl] show ?case by auto
qed

lemma convert_batches_fresh:
  assumes "convert_batches M X pw tw prev bs tasks = Inr tasks'"
    "distinct (map oid_of (concat (map batch_values bs)))"
    "oid_of ` set (concat (map batch_values bs)) \<inter> fst ` set tasks = {}"
    "closed tasks"
  shows "map (\<lambda>e. d_task (snd e)) tasks'
           = map (\<lambda>e. d_task (snd e)) tasks @ concat (map batch_values bs)
     \<and> closed tasks'"
  using assms
proof (induction bs arbitrary: prev tasks)
  case Nil
  then show ?case by simp
next
  case (Cons b bs)
  from Cons.prems(1) obtain mid where
    ct: "convert_tasks M X (batch_task_func pw tw b) (batch_fkwargs b) prev
           (batch_values b) tasks = Inr mid"
    and rec: "convert_batches M X pw tw (Some b) bs mid = Inr tasks'"
    by (auto simp: Let_def batch_task_func_def split: sum.splits)
  from Cons.prems(2) have d1: "distinct (map oid_of (batch_values b))"
    and d2: "distinct (map oid_of (concat (map batch_values bs)))"
    and d3: "oid_of ` set (batch_values b) \<inter> oid_of ` set (concat (map batch_values bs)) = {}"
    by auto
  from Cons.prems(3) have f1: "oid_of ` set (batch_values b) \<inter> fst ` set tasks = {}"
    by auto
  from convert_tasks_fresh[OF ct d1 f1 Cons.prems(4)] have
    m1: "map (\<lambda>e. d_task (snd e)) mid = map (\<lambda>e. d_task (snd e)) tasks @ batch_values b"
    and m2: "fst ` set mid = fst ` set tasks \<union> oid_of ` set (batch_values b)"
    and m3: "closed mid"
    by auto
  from Cons.prems(3) have
    f3: "oid_of ` set (concat (map batch_values bs)) \<inter> fst ` set tasks = {}"
    by auto
  have f2: "oid_of ` set (concat (map batch_values bs)) \<inter> fst ` set mid = {}"
    unfolding m2 using f3 d3 by blast
  from Cons.IH[OF rec d2 f2 m3] m1 show ?case by simp
qed

text \<open>
  Claim C2. When \<open>to_dask_collection\<close> succeeds, every node of the graph is the node built
  for a task of some batch: it wraps that task with the batch's function, and its
  dependencies are exactly those of the task, none for a task of the first batch,
  otherwise one entry \<open>child.id \<mapsto> node\<close> for every task that \<open>intersection\<close> of the
  previous batch returns for it, no key twice, no task left out and no entry besides,
  where each value is in turn the node built for the task object it is stored under.
  Every task of every batch has its node in the graph. When the batches hold pairwise
  distinct task objects, the graph has one node per task in the order of the batches,
  and every dependency value is one of the nodes of the graph: the upstream node itself.
\<close>

theorem to_dask_collection_dependencies:
  assumes "to_dask_collection M X batches pw tw = Inr nodes"
  shows "list_all (built M X pw tw batches) nodes
       \<and> list_all (\<lambda>b. list_all (\<lambda>t. list_ex (\<lambda>n. oid_of (d_task n) = oid_of t) nodes)
                          (batch_values b)) batches
       \<and> (if distinct (map oid_of (concat (map batch_values batches)))
           then map d_task nodes = concat (map batch_values batches)
                \<and> list_all (\<lambda>n. list_all (\<lambda>e. snd e \<in> set nodes) (d_dependencies n)) nodes
           else True)"
proof -
  from assms obtain tasks where
    cb: "convert_batches M X pw tw None batches [] = Inr tasks"
    and nodes: "nodes = map snd tasks"
    by (auto simp: to_dask_collection_def split: sum.splits)
  have p0: "previous_of batches 0 = None" by (simp add: previous_of_def)
  from convert_batches_inv[of M X pw tw batches 0 batches "[]" tasks] cb p0 have
    k: "keyed tasks" and ok: "\<forall>(k, n) \<in> set tasks. built M X pw tw batches n"
    and cov: "\<forall>j < length batches. oid_of ` set (batch_values (batches ! j)) \<subseteq> fst ` set tasks"
    by (simp_all add: keyed_def)
  have 1: "list_all (built M X pw tw batches) nodes"
    unfolding list_all_iff nodes using ok by auto
  have 2: "list_all (\<lambda>b. list_all (\<lambda>t. list_ex (\<lambda>n. oid_of (d_task n) = oid_of t) nodes)
                          (batch_values b)) batches"
    unfolding list_all_iff list_ex_iff
  proof (intro ballI)
    fix b t assume b: "b \<in> set batches" and t: "t \<in> set (batch_values b)"
    from b obtain j where j: "j < length batches" "batches ! j = b"
      by (auto simp: in_set_conv_nth)
    with cov t have "oid_of t \<in> fst ` set tasks" by blast
    then obtain n where n: "(oid_of t, n) \<in> set tasks" by force
    with k have "oid_of (d_task n) = oid_of t" by (auto simp: keyed_def)
    moreover from n have "n \<in> set nodes" unfolding nodes by force
    ultimately show "\<exists>n \<in> set nodes. oid_of (d_task n) = oid_of t" by blast
  qed
  have 3: "map d_task nodes = concat (map batch_values batches)
                \<and> list_all (\<lambda>n. list_all (\<lambda>e. snd e \<in> set nodes) (d_dependencies n)) nodes"
    if d: "distinct (map oid_of (concat (map batch_values batches)))"
  proof -
    have "closed ([] :: (nat \<times> 'a delayed) list)" by (simp add: closed_def)
    from convert_batches_fresh[OF cb d _ this] have
      a: "map (\<lambda>e. d_task (snd e)) tasks = concat (map batch_values batches)"
      and c: "closed tasks" by auto
    from a have "map d_task nodes = concat (map batch_values batches)"
      unfolding nodes by (simp add: comp_def)
    moreover have
      "list_all (\<lambda>n. list_all (\<lambda>e. snd e \<in> set nodes) (d_dependencies n)) nodes"
      unfolding list_all_iff
    proof (intro ballI)
      fix n e assume n: "n \<in> set nodes" and e: "e \<in> set (d_dependencies n)"
      from n obtain k where "(k, n) \<in> set tasks" unfolding nodes by force
      with c have "snd ` set (d_dependencies n) \<subseteq> snd ` set tasks"
        unfolding closed_def by blast
      with e show "snd e \<in> set nodes" unfolding nodes by auto
    qed
    ultimately show ?thesis by simp
  qed
  from 1 2 3 show ?thesis by simp
qed


lemma example_pre_task_init:
  "Task_init rect_lib ''0f'' 10 (Some ''src1:fetch'') (Some (Func ''fetch'')) None None None None
     None None = Inr example_pre_task"
  by (simp add: Task_init_def example_pre_task_def str_or_def list_or_empty_def
        given_geometry_def given_bounds_def)

lemma example_tile_task_sel:
  "oid (example_tile_task obj name t) = obj"
  "task_id (example_tile_task obj name t) = name"
  "result_key_name (example_tile_task obj name t) = name @ ''_result''"
  "bounds (example_tile_task obj name t) = Some (quad_bounds t)"
  "tile (example_tile_task obj name t) = t"
  by (simp_all add: example_tile_task_def)

lemma mk_tile_sel:
  "zoom (mk_tile z r c) = z" "row (mk_tile z r c) = r" "col (mk_tile z r c) = c"
  "buffered_tp (mk_tile z r c) = geodetic"
  by (simp_all add: mk_tile_def)

lemma mk_tile_eq: "mk_tile z r c = mk_tile z' r' c' \<longleftrightarrow> z = z' \<and> r = r' \<and> c = c'"
  by (simp add: mk_tile_def)

lemma quadtree_children_mk:
  "get_children quadtree (mk_tile z r c) =
     [mk_tile (z + 1) (2 * r) (2 * c), mk_tile (z + 1) (2 * r) (2 * c + 1),
      mk_tile (z + 1) (2 * r + 1) (2 * c + 1), mk_tile (z + 1) (2 * r + 1) (2 * c)]"
  by (simp add: quadtree_def quad_children_def mk_tile_def)

lemma example_batches:
  "\<exists>b2 b1.
     TileTaskBatch_init quadtree ''0f'' example_zoom2_tasks (Some ''zoom-2'') None None = Inr b2
     \<and> TileTaskBatch_init quadtree ''0f'' example_zoom1_tasks (Some ''zoom-1'') None None = Inr b1
     \<and> ttb_id b2 = ''zoom-2'' \<and> ttb_func b2 = Execute_tile_task_wrapper \<and> ttb_fkwargs b2 = []
     \<and> ttb_zoom b2 = Some 2
     \<and> ttb_tasks b2 =
           [(mk_tile 2 0 0, example_tile_task 1 ''A'' (mk_tile 2 0 0)),
            (mk_tile 2 1 2, example_tile_task 2 ''B'' (mk_tile 2 1 2)),
            (mk_tile 2 0 2, example_tile_task 3 ''C'' (mk_tile 2 0 2)),
            (mk_tile 2 1 3, example_tile_task 4 ''D'' (mk_tile 2 1 3))]
     \<and> ttb_id b1 = ''zoom-1'' \<and> ttb_func b1 = Execute_tile_task_wrapper \<and> ttb_fkwargs b1 = []
     \<and> ttb_zoom b1 = Some 1
     \<and> ttb_tasks b1 = [(mk_tile 1 0 1, example_tile_task 5 ''X'' (mk_tile 1 0 1))]"
  by (simp add: TileTaskBatch_init_def example_zoom2_validate Let_def example_zoom1_tasks_def
        example_tile_task_sel mk_tile_sel mk_tile_eq str_or_def list_or_empty_def)

lemma example_conversion_values:
  assumes "ttb_id b2 = ''zoom-2''" "ttb_func b2 = Execute_tile_task_wrapper" "ttb_fkwargs b2 = []"
     "ttb_zoom b2 = Some 2"
     "ttb_tasks b2 =
           [(mk_tile 2 0 0, example_tile_task 1 ''A'' (mk_tile 2 0 0)),
            (mk_tile 2 1 2, example_tile_task 2 ''B'' (mk_tile 2 1 2)),
            (mk_tile 2 0 2, example_tile_task 3 ''C'' (mk_tile 2 0 2)),
            (mk_tile 2 1 3, example_tile_task 4 ''D'' (mk_tile 2 1 3))]"
     "ttb_id b1 = ''zoom-1''" "ttb_func b1 = Execute_tile_task_wrapper" "ttb_fkwargs b1 = []"
     "ttb_zoom b1 = Some 1"
     "ttb_tasks b1 = [(mk_tile 1 0 1, example_tile_task 5 ''X'' (mk_tile 1 0 1))]"
  shows "\<exists>nodes. to_dask_collection quadtree overlap_filter
            [ABatch example_pre_batch, ATileBatch b2, ATileBatch b1] None None = Inr nodes
          \<and> map (\<lambda>n. (d_name n, d_func n, d_traverse n,
                        map (\<lambda>e. (fst e, d_name (snd e), d_func (snd e),
                                   map fst (d_dependencies (snd e))))
                            (d_dependencies n))) nodes =
              [(''src1:fetch'', Execute_task_wrapper, False, []),
               (''A'', Execute_tile_task_wrapper, True,
                  [(''src1:fetch'', ''src1:fetch'', Execute_task_wrapper, [])]),
               (''B'', Execute_tile_task_wrapper, True,
                  [(''src1:fetch'', ''src1:fetch'', Execute_task_wrapper, [])]),
               (''C'', Execute_tile_task_wrapper, True,
                  [(''src1:fetch'', ''src1:fetch'', Execute_task_wrapper, [])]),
               (''D'', Execute_tile_task_wrapper, True,
                  [(''src1:fetch'', ''src1:fetch'', Execute_task_wrapper, [])]),
               (''X'', Execute_tile_task_wrapper, True,
                  [(''C'', ''C'', Execute_tile_task_wrapper, [''src1:fetch'']),
                   (''D'', ''D'', Execute_tile_task_wrapper, [''src1:fetch'']),
                   (''B'', ''B'', Execute_tile_task_wrapper, [''src1:fetch''])])]"
  using assms
  by (simp add: to_dask_collection_def Let_def task_dependencies_def example_pre_batch_def
        TaskBatch_intersection_def TileTaskBatch_intersection_def tiles_in_batch_def
        overlap_filter_def example_tile_task_sel mk_tile_sel mk_tile_eq quadtree_children_mk
        List.map_filter_simps func_or_def)
     (simp add: example_pre_task_def)


theorem to_dask_collection_dependencies_witness:
  "\<exists>b2 b1 nodes.
     TileTaskBatch_init quadtree ''0f'' example_zoom2_tasks (Some ''zoom-2'') None None = Inr b2
     \<and> TileTaskBatch_init quadtree ''0f'' example_zoom1_tasks (Some ''zoom-1'') None None = Inr b1
     \<and> to_dask_collection quadtree overlap_filter
          [ABatch example_pre_batch, ATileBatch b2, ATileBatch b1] None None = Inr nodes
     \<and> list_all (built quadtree overlap_filter None None
                   [ABatch example_pre_batch, ATileBatch b2, ATileBatch b1]) nodes
     \<and> map d_task nodes = PlainTask example_pre_task # example_zoom2_tasks @ example_zoom1_tasks
     \<and> list_all (\<lambda>n. list_all (\<lambda>e. snd e \<in> set nodes) (d_dependencies n)) nodes
     \<and> map (\<lambda>n. (d_name n, d_func n, d_traverse n,
                   map (\<lambda>e. (fst e, d_name (snd e), d_func (snd e),
                              map fst (d_dependencies (snd e))))
                       (d_dependencies n))) nodes =
          [(''src1:fetch'', Execute_task_wrapper, False, []),
           (''A'', Execute_tile_task_wrapper, True,
              [(''src1:fetch'', ''src1:fetch'', Execute_task_wrapper, [])]),
           (''B'', Execute_tile_task_wrapper, True,
              [(''src1:fetch'', ''src1:fetch'', Execute_task_wrapper, [])]),
           (''C'', Execute_tile_task_wrapper, True,
              [(''src1:fetch'', ''src1:fetch'', Execute_task_wrapper, [])]),
           (''D'', Execute_tile_task_wrapper, True,
              [(''src1:fetch'', ''src1:fetch'', Execute_task_wrapper, [])]),
           (''X'', Execute_tile_task_wrapper, True,
              [(''C'', ''C'', Execute_tile_task_wrapper, [''src1:fetch'']),
               (''D'', ''D'', Execute_tile_task_wrapper, [''src1:fetch'']),
               (''B'', ''B'', Execute_tile_task_wrapper, [''src1:fetch''])])]"
proof -
  from example_batches obtain b2 b1 where
    i2: "TileTaskBatch_init quadtree ''0f'' example_zoom2_tasks (Some ''zoom-2'') None None = Inr b2"
    and i1: "TileTaskBatch_init quadtree ''0f'' example_zoom1_tasks (Some ''zoom-1'') None None = Inr b1"
    and f: "ttb_id b2 = ''zoom-2''" "ttb_func b2 = Execute_tile_task_wrapper" "ttb_fkwargs b2 = []"
     "ttb_zoom b2 = Some 2"
     "ttb_tasks b2 =
           [(mk_tile 2 0 0, example_tile_task 1 ''A'' (mk_tile 2 0 0)),
            (mk_tile 2 1 2, example_tile_task 2 ''B'' (mk_tile 2 1 2)),
            (mk_tile 2 0 2, example_tile_task 3 ''C'' (mk_tile 2 0 2)),
            (mk_tile 2 1 3, example_tile_task 4 ''D'' (mk_tile 2 1 3))]"
     "ttb_id b1 = ''zoom-1''" "ttb_func b1 = Execute_tile_task_wrapper" "ttb_fkwargs b1 = []"
     "ttb_zoom b1 = Some 1"
     "ttb_tasks b1 = [(mk_tile 1 0 1, example_tile_task 5 ''X'' (mk_tile 1 0 1))]"
    by blast
  let ?bs = "[ABatch example_pre_batch, ATileBatch b2, ATileBatch b1]"
  let ?shape = "\<lambda>nodes. map (\<lambda>n. (d_name n, d_func n, d_traverse n,
                   map (\<lambda>e. (fst e, d_name (snd e), d_func (snd e),
                              map fst (d_dependencies (snd e))))
                       (d_dependencies n))) nodes =
          [(''src1:fetch'', Execute_task_wrapper, False, []),
           (''A'', Execute_tile_task_wrapper, True,
              [(''src1:fetch'', ''src1:fetch'', Execute_task_wrapper, [])]),
           (''B'', Execute_tile_task_wrapper, True,
              [(''src1:fetch'', ''src1:fetch'', Execute_task_wrapper, [])]),
           (''C'', Execute_tile_task_wrapper, True,
              [(''src1:fetch'', ''src1:fetch'', Execute_task_wrapper, [])]),
           (''D'', Execute_tile_task_wrapper, True,
              [(''src1:fetch'', ''src1:fetch'', Execute_task_wrapper, [])]),
           (''X'', Execute_tile_task_wrapper, True,
              [(''C'', ''C'', Execute_tile_task_wrapper, [''src1:fetch'']),
               (''D'', ''D'', Execute_tile_task_wrapper, [''src1:fetch'']),
               (''B'', ''B'', Execute_tile_task_wrapper, [''src1:fetch''])])]"
  from example_conversion_values[OF f] obtain nodes where
    both: "to_dask_collection quadtree overlap_filter ?bs None None = Inr nodes \<and> ?shape nodes" ..
  from both have run: "to_dask_collection quadtree overlap_filter ?bs None None = Inr nodes" ..
  from both have shape: "?shape nodes" ..
  have vals: "concat (map batch_values ?bs)
      = PlainTask example_pre_task # example_zoom2_tasks @ example_zoom1_tasks"
    by (simp add: f example_pre_batch_def example_zoom2_tasks_def example_zoom1_tasks_def)
  have d: "distinct (map oid_of (concat (map batch_values ?bs)))"
    unfolding vals
    by (simp add: example_zoom2_tasks_def example_zoom1_tasks_def example_tile_task_sel
          example_pre_task_def)
  note inst = to_dask_collection_dependencies[OF run]
  from inst have 1: "list_all (built quadtree overlap_filter None None ?bs) nodes"
    by (rule conjunct1)
  from inst d have 2: "map d_task nodes = concat (map batch_values ?bs)
      \<and> list_all (\<lambda>n. list_all (\<lambda>e. snd e \<in> set nodes) (d_dependencies n)) nodes"
    by (simp only: if_True simp_thms)
  from 2 have 3: "map d_task nodes
      = PlainTask example_pre_task # example_zoom2_tasks @ example_zoom1_tasks"
    unfolding vals by (rule conjunct1)
  from 2 have 4: "list_all (\<lambda>n. list_all (\<lambda>e. snd e \<in> set nodes) (d_dependencies n)) nodes"
    by (rule conjunct2)
  from i2 i1 run 1 3 4 shape show ?thesis
    by (intro exI[where x = b2] exI[where x = b1] exI[where x = nodes]) (simp only: simp_thms)
qed

section \<open>Properties of the execute command\<close>


lemma statuses_append: "statuses (xs @ ys) = statuses xs @ statuses ys"
  by (simp add: statuses_def List.map_filter_def)

lemma progresses_append: "progresses (xs @ ys) = progresses xs @ progresses ys"
  by (simp add: progresses_def List.map_filter_def)

lemma statuses_simps:
  "statuses [] = []"
  "statuses (notify (Some s) p m r # evs) = s # statuses evs"
  "statuses (notify None p m r # evs) = statuses evs"
  by (simp_all add: statuses_def notify_def List.map_filter_simps)

lemma progresses_simps:
  "progresses [] = []"
  "progresses (notify s (Some p) m r # evs) = p # progresses evs"
  "progresses (notify s None m r # evs) = progresses evs"
  by (simp_all add: progresses_def notify_def List.map_filter_simps)

lemma statuses_result_events: "statuses (result_events n i rs) = []"
  by (induction rs arbitrary: i) (simp_all add: statuses_simps)

lemma progresses_result_events:
  "progresses (result_events n i rs) =
     map (\<lambda>j. \<lparr> pr_current = j, pr_total = n \<rparr>) [i ..< i + length rs]"
proof (induction rs arbitrary: i)
  case Nil
  then show ?case by (simp add: progresses_simps)
next
  case (Cons r rs)
  have "i < i + length (r # rs)" by simp
  then have "[i ..< i + length (r # rs)] = i # [Suc i ..< i + length (r # rs)]"
    by (rule upt_conv_Cons)
  moreover have "i + length (r # rs) = Suc i + length rs" by simp
  ultimately have "[i ..< i + length (r # rs)] = i # [Suc i ..< Suc i + length rs]"
    by simp
  with Cons show ?case by (simp add: progresses_simps)
qed

lemma run_attempt_statuses:
  "\<exists>evs. run_attempt C R tg retries a job =
     (if total_tasks tg job = 0 then Returned evs
      else case raises job of
             None \<Rightarrow> Returned evs
           | Some e \<Rightarrow> if C e then Raised evs e
                       else if R e then (if retries \<noteq> 0 then Retry evs else Raised evs e)
                       else Raised evs e)
     \<and> statuses evs =
       (if total_tasks tg job = 0 then [Initializing, Done]
        else case raises job of
             None \<Rightarrow> [Initializing, Running]
           | Some e \<Rightarrow> if C e then [Initializing, Running, Cancelled]
                       else if R e then (if retries \<noteq> 0 then [Initializing, Running, Failed, Retrying]
                                         else [Initializing, Running, Failed])
                       else [Initializing, Running])"
  by (simp add: run_attempt_def Let_def statuses_append statuses_simps statuses_result_events
        split: option.splits)

lemma attempt_loop_cancel_invariant:
  assumes run: "attempt_loop C R tg jobs retries a tr = Some y"
    and inv: "Cancelled \<notin> set (statuses tr)"
  shows "cancelled_once C y"
proof -
  have "Cancelled \<notin> set (statuses tr) \<longrightarrow> cancelled_once C y"
  proof (rule attempt_loop.raw_induct
      [where P = "\<lambda>C R tg jobs retries a tr y.
                    Cancelled \<notin> set (statuses tr) \<longrightarrow> cancelled_once C y", OF _ run])
    fix loop C R tg jobs retries a tr y
    assume IH: "\<And>C R tg jobs retries a tr y. loop C R tg jobs retries a tr = Some y \<Longrightarrow>
                  Cancelled \<notin> set (statuses tr) \<longrightarrow> cancelled_once C y"
      and eq: "(if retries + 1 = 0 then Some (tr, Inr (), a)
        else case run_attempt C R tg retries (Suc a) (jobs (Suc a)) of
             Returned evs \<Rightarrow> Some (tr @ evs, Inr (), Suc a)
             | Raised evs e \<Rightarrow> Some (tr @ evs, Inl e, Suc a)
             | Retry evs \<Rightarrow> loop C R tg jobs (retries - 1) (Suc a) (tr @ evs)) = Some y"
    show "Cancelled \<notin> set (statuses tr) \<longrightarrow> cancelled_once C y"
    proof
      assume inv: "Cancelled \<notin> set (statuses tr)"
      then have c0: "count_list (statuses tr) Cancelled = 0"
        by (simp add: count_list_0_iff)
      let ?job = "jobs (Suc a)"
      from run_attempt_statuses[of C R tg retries "Suc a" ?job] obtain evs where
        ra: "run_attempt C R tg retries (Suc a) ?job =
       (if total_tasks tg ?job = 0 then Returned evs
        else case raises ?job of
               None \<Rightarrow> Returned evs
             | Some e \<Rightarrow> if C e then Raised evs e
                         else if R e then (if retries \<noteq> 0 then Retry evs else Raised evs e)
                         else Raised evs e)"
        and st: "statuses evs =
         (if total_tasks tg ?job = 0 then [Initializing, Done]
          else case raises ?job of
               None \<Rightarrow> [Initializing, Running]
             | Some e \<Rightarrow> if C e then [Initializing, Running, Cancelled]
                         else if R e then (if retries \<noteq> 0 then [Initializing, Running, Failed, Retrying]
                                           else [Initializing, Running, Failed])
                         else [Initializing, Running])"
        by blast
      show "cancelled_once C y"
      proof (cases "retries + 1 \<noteq> 0 \<and> total_tasks tg ?job \<noteq> 0
                    \<and> (\<exists>e. raises ?job = Some e \<and> \<not> C e \<and> R e \<and> retries \<noteq> 0)")
        case True
        then obtain e where e: "raises ?job = Some e" "\<not> C e" "R e" "retries \<noteq> 0"
          and nz: "retries + 1 \<noteq> 0" "total_tasks tg ?job \<noteq> 0"
          by blast
        with ra eq have rec: "loop C R tg jobs (retries - 1) (Suc a) (tr @ evs) = Some y"
          by simp
        have "Cancelled \<notin> set (statuses (tr @ evs))"
          using inv e nz st by (simp add: statuses_append)
        with IH[OF rec] show ?thesis by simp
      next
        case False
        with ra st eq inv c0 show ?thesis
          by (auto simp: cancelled_once_def statuses_append split: if_splits option.splits)
      qed
    qed
  qed
  with inv show ?thesis by simp
qed


lemma run_attempt_success:
  assumes "total_tasks tg job \<noteq> 0" "raises job = None"
  shows "\<exists>evs. run_attempt C R tg retries a job = Returned evs
           \<and> statuses evs = [Initializing, Running]
           \<and> progresses evs =
               \<lparr> pr_current = 0, pr_total = total_tasks tg job \<rparr>
               # map (\<lambda>j. \<lparr> pr_current = j, pr_total = total_tasks tg job \<rparr>)
                   [1 ..< 1 + length (futures job)]"
  using assms
  by (simp add: run_attempt_def Let_def statuses_append statuses_simps statuses_result_events
        progresses_append progresses_simps progresses_result_events)

text \<open>
  Claim C6. Whenever an attempt raises an exception of the cancel class while the tasks
  are processed, the job notifies \<open>cancelled\<close> and the exception leaves \<open>execute\<close> with
  that attempt as the last one, whatever the retry class is and however many retries
  remain. Over a whole job, \<open>cancelled\<close> is notified exactly when such an exception
  leaves \<open>execute\<close>, once, and as the last status.
\<close>

theorem cancellation_is_terminal:
  "(retries + 1 \<noteq> 0 \<and> total_tasks tg (jobs (Suc a)) \<noteq> 0 \<and> raises (jobs (Suc a)) = Some e
      \<and> C e \<longrightarrow>
      (\<exists>evs. attempt_loop C R tg jobs retries a tr = Some (tr @ evs, Inl e, Suc a)
          \<and> statuses evs = [Initializing, Running, Cancelled]))
   \<and> (execute C R tg jobs retries = Some y \<longrightarrow> cancelled_once C y)"
proof (intro conjI impI)
  assume a: "retries + 1 \<noteq> 0 \<and> total_tasks tg (jobs (Suc a)) \<noteq> 0
      \<and> raises (jobs (Suc a)) = Some e \<and> C e"
  from run_attempt_statuses[of C R tg retries "Suc a" "jobs (Suc a)"] a
  obtain evs where "run_attempt C R tg retries (Suc a) (jobs (Suc a)) = Raised evs e"
    "statuses evs = [Initializing, Running, Cancelled]"
    by auto
  with a show "\<exists>evs. attempt_loop C R tg jobs retries a tr = Some (tr @ evs, Inl e, Suc a)
          \<and> statuses evs = [Initializing, Running, Cancelled]"
    by (subst attempt_loop.simps) simp
next
  assume "execute C R tg jobs retries = Some y"
  then have "attempt_loop C R tg jobs retries 0 [notify (Some Parsing) None None None] = Some y"
    by (simp add: execute_def)
  then show "cancelled_once C y"
    by (rule attempt_loop_cancel_invariant) (simp add: statuses_simps)
qed

text \<open>
  Claim C7, as the code has it. For a job with at least one task, a retry count other
  than \<open>-1\<close> and a first attempt in which nothing raises, \<open>execute\<close> returns after one
  attempt. The statuses notified begin with \<open>parsing\<close>, \<open>initializing\<close>, \<open>running\<close>, and
  leaving aside \<open>done\<close> these three are all the statuses notified, in this order: nothing
  follows \<open>running\<close> but possibly \<open>done\<close>. In particular \<open>post_processing\<close> is never
  notified. When the computation yields as many results as there are tasks, the last
  progress notified has \<open>current = total\<close>.
\<close>

theorem successful_job_statuses:
  assumes "retries \<noteq> - 1" "total_tasks tg (jobs 1) \<noteq> 0" "raises (jobs 1) = None"
  shows "\<exists>trace. execute C R tg jobs retries = Some (trace, Inr (), 1)
     \<and> take 3 (statuses trace) = [Parsing, Initializing, Running]
     \<and> filter (\<lambda>s. s \<noteq> Done) (statuses trace) = [Parsing, Initializing, Running]
     \<and> Post_processing \<notin> set (statuses trace)
     \<and> (if length (futures (jobs 1)) = total_tasks tg (jobs 1)
         then last (progresses trace) =
                \<lparr> pr_current = total_tasks tg (jobs 1), pr_total = total_tasks tg (jobs 1) \<rparr>
         else True)"
proof -
  from run_attempt_success[OF assms(2,3), of C R retries 1] obtain evs where
    ra: "run_attempt C R tg retries 1 (jobs 1) = Returned evs"
    and st: "statuses evs = [Initializing, Running]"
    and pr: "progresses evs =
               \<lparr> pr_current = 0, pr_total = total_tasks tg (jobs 1) \<rparr>
               # map (\<lambda>j. \<lparr> pr_current = j, pr_total = total_tasks tg (jobs 1) \<rparr>)
                   [1 ..< 1 + length (futures (jobs 1))]"
    by blast
  let ?trace = "[notify (Some Parsing) None None None] @ evs"
  from assms(1) have nz: "retries + 1 \<noteq> 0" by simp
  have run: "execute C R tg jobs retries = Some (?trace, Inr (), 1)"
    unfolding execute_def using nz ra by (subst attempt_loop.simps) simp
  have s: "statuses ?trace = [Parsing, Initializing, Running]"
    by (simp add: statuses_append statuses_simps st)
  have p: "length (futures (jobs 1)) = total_tasks tg (jobs 1) \<Longrightarrow>
           last (progresses ?trace) =
                \<lparr> pr_current = total_tasks tg (jobs 1), pr_total = total_tasks tg (jobs 1) \<rparr>"
  proof -
    assume l: "length (futures (jobs 1)) = total_tasks tg (jobs 1)"
    let ?n = "total_tasks tg (jobs 1)"
    let ?g = "\<lambda>j. \<lparr> pr_current = j, pr_total = ?n \<rparr>"
    have pr': "progresses ?trace = ?g 0 # map ?g [1 ..< Suc ?n]"
      using pr l by (simp add: progresses_append progresses_simps)
    from assms(2) have "1 \<le> ?n" by simp
    then have "[1 ..< Suc ?n] = [1 ..< ?n] @ [?n]"
      by (rule upt_Suc_append)
    then have "map ?g [1 ..< Suc ?n] = map ?g [1 ..< ?n] @ [?g ?n]"
      by simp
    with pr' show ?thesis by simp
  qed
  show ?thesis
    using run s p by (intro exI[where x = ?trace]) simp
qed

text \<open>
  The retry arithmetic of the loop: with \<open>k\<close> failing attempts of the retry class (and not
  of the cancel class), at least \<open>k\<close> retries and a next attempt that succeeds, the job
  returns after \<open>k + 1\<close> attempts and has notified \<open>failed\<close> and \<open>retrying\<close> \<open>k\<close> times
  each; its last status is \<open>running\<close>, and \<open>done\<close> is not among the statuses.
\<close>

lemma retries_then_success:
  assumes "int k \<le> retries"
    and "\<forall>i. 1 \<le> i \<and> i \<le> k \<longrightarrow>
           total_tasks tg (jobs (a + i)) \<noteq> 0
           \<and> (\<exists>e. raises (jobs (a + i)) = Some e \<and> \<not> C e \<and> R e)"
    and "total_tasks tg (jobs (a + k + 1)) \<noteq> 0" "raises (jobs (a + k + 1)) = None"
  shows "\<exists>evs. attempt_loop C R tg jobs retries a tr = Some (tr @ evs, Inr (), a + k + 1)
           \<and> count_list (statuses evs) Retrying = k
           \<and> count_list (statuses evs) Failed = k
           \<and> Done \<notin> set (statuses evs)
           \<and> statuses evs \<noteq> []
           \<and> last (statuses evs) = Running"
  using assms
proof (induction k arbitrary: retries a tr)
  case 0
  from run_attempt_success[of tg "jobs (Suc a)" C R retries "Suc a"] "0.prems"
  obtain evs where "run_attempt C R tg retries (Suc a) (jobs (Suc a)) = Returned evs"
    "statuses evs = [Initializing, Running]"
    by auto
  with "0.prems"(1) show ?case
    by (subst attempt_loop.simps) auto
next
  case (Suc k)
  from Suc.prems(2) have
    f: "total_tasks tg (jobs (Suc a)) \<noteq> 0"
       "\<exists>e. raises (jobs (Suc a)) = Some e \<and> \<not> C e \<and> R e"
    by (auto dest: spec[where x = 1])
  from Suc.prems(1) have r: "retries \<noteq> 0" "retries + 1 \<noteq> 0" "int k \<le> retries - 1"
    by auto
  from run_attempt_statuses[of C R tg retries "Suc a" "jobs (Suc a)"] f r
  obtain evs1 where
    ra: "run_attempt C R tg retries (Suc a) (jobs (Suc a)) = Retry evs1"
    and st: "statuses evs1 = [Initializing, Running, Failed, Retrying]"
    by auto
  have later: "\<forall>i. 1 \<le> i \<and> i \<le> k \<longrightarrow>
           total_tasks tg (jobs (Suc a + i)) \<noteq> 0
           \<and> (\<exists>e. raises (jobs (Suc a + i)) = Some e \<and> \<not> C e \<and> R e)"
  proof (intro allI impI)
    fix i assume "1 \<le> i \<and> i \<le> k"
    then have "1 \<le> Suc i \<and> Suc i \<le> Suc k" by simp
    with Suc.prems(2) have "total_tasks tg (jobs (a + Suc i)) \<noteq> 0
           \<and> (\<exists>e. raises (jobs (a + Suc i)) = Some e \<and> \<not> C e \<and> R e)"
      by blast
    then show "total_tasks tg (jobs (Suc a + i)) \<noteq> 0
           \<and> (\<exists>e. raises (jobs (Suc a + i)) = Some e \<and> \<not> C e \<and> R e)"
      by simp
  qed
  from Suc.prems(3,4) have fin: "total_tasks tg (jobs (Suc a + k + 1)) \<noteq> 0"
    "raises (jobs (Suc a + k + 1)) = None"
    by simp_all
  from Suc.IH[OF r(3) later fin, of "tr @ evs1"] obtain evs where
    res: "attempt_loop C R tg jobs (retries - 1) (Suc a) (tr @ evs1)
            = Some ((tr @ evs1) @ evs, Inr (), Suc a + k + 1)"
    and c: "count_list (statuses evs) Retrying = k" "count_list (statuses evs) Failed = k"
       "Done \<notin> set (statuses evs)" "last (statuses evs) = Running"
    and ne: "statuses evs \<noteq> []"
    by auto
  have "attempt_loop C R tg jobs retries a tr = Some (tr @ (evs1 @ evs), Inr (), a + Suc k + 1)"
    using r ra res by (subst attempt_loop.simps) simp
  moreover have "count_list (statuses (evs1 @ evs)) Retrying = Suc k"
    "count_list (statuses (evs1 @ evs)) Failed = Suc k"
    "Done \<notin> set (statuses (evs1 @ evs))"
    "statuses (evs1 @ evs) \<noteq> []"
    "last (statuses (evs1 @ evs)) = Running"
    using st c ne by (simp_all add: statuses_append)
  ultimately show ?case by blast
qed


lemma example_successful_run:
  "execute default_cancel_on default_retry_on False (\<lambda>n. one_task None) 0 =
     Some ([notify (Some Parsing) None None None,
            notify (Some Initializing) None None None,
            notify None None (Some (Processing_message 0 1)) None,
            notify None None (Some Waiting_message) None,
            notify (Some Running) (Some \<lparr> pr_current = 0, pr_total = 1 \<rparr>)
              (Some (Sending_message 1)) None,
            notify None None (Some (Task_message ''tile_task'' ''processed'')) None,
            notify None (Some \<lparr> pr_current = 1, pr_total = 1 \<rparr>) None
              (Some \<lparr> tr_id = ''tile_task'', tr_process_msg = ''processed'' \<rparr>)],
           Inr (), 1)"
  unfolding execute_def
  by (subst attempt_loop.simps)
     (simp add: run_attempt_def total_tasks_def one_task_def Let_def)

text \<open>
  The claim as written (the statuses end with \<open>post_processing\<close>, \<open>done\<close>) fails for the
  job with one tile task.
\<close>

theorem successful_job_ends_done_counterexample:
  "\<exists>trace. execute default_cancel_on default_retry_on False (\<lambda>n. one_task None) 0
              = Some (trace, Inr (), 1)
       \<and> total_tasks False (one_task None) = 1
       \<and> raises (one_task None) = None
       \<and> statuses trace = [Parsing, Initializing, Running]
       \<and> statuses trace \<noteq> [Parsing, Initializing, Running, Post_processing, Done]"
proof -
  let ?trace = "[notify (Some Parsing) None None None,
            notify (Some Initializing) None None None,
            notify None None (Some (Processing_message 0 1)) None,
            notify None None (Some Waiting_message) None,
            notify (Some Running) (Some \<lparr> pr_current = 0, pr_total = 1 \<rparr>)
              (Some (Sending_message 1)) None,
            notify None None (Some (Task_message ''tile_task'' ''processed'')) None,
            notify None (Some \<lparr> pr_current = 1, pr_total = 1 \<rparr>) None
              (Some \<lparr> tr_id = ''tile_task'', tr_process_msg = ''processed'' \<rparr>)]"
  have "statuses ?trace = [Parsing, Initializing, Running]"
    by (simp add: statuses_simps)
  moreover have "total_tasks False (one_task None) = 1" "raises (one_task None) = None"
    by (simp_all add: total_tasks_def one_task_def)
  ultimately show ?thesis
    using example_successful_run by (intro exI[where x = ?trace]) simp
qed

theorem successful_job_statuses_witness:
  "\<exists>trace. execute default_cancel_on default_retry_on False (\<lambda>n. one_task None) 0
              = Some (trace, Inr (), 1)
       \<and> take 3 (statuses trace) = [Parsing, Initializing, Running]
       \<and> filter (\<lambda>s. s \<noteq> Done) (statuses trace) = [Parsing, Initializing, Running]
       \<and> Post_processing \<notin> set (statuses trace)
       \<and> last (progresses trace) = \<lparr> pr_current = 1, pr_total = 1 \<rparr>"
  using successful_job_statuses
          [of 0 False "\<lambda>n. one_task None" default_cancel_on default_retry_on]
  by (simp add: total_tasks_def one_task_def)

text \<open>
  Claim C5 at a concrete job: one retry, the task fails on the first attempt and succeeds
  on the second. The job returns after two attempts and notifies \<open>retrying\<close> once, as
  the claim says, but it never notifies \<open>done\<close>: the normal return of \<open>execute\<close> makes
  no status notification, unlike its return for a job without tasks.
\<close>

theorem retry_then_succeed_is_never_done:
  "\<exists>trace. execute default_cancel_on default_retry_on False fail_then_succeed 1
              = Some (trace, Inr (), 2)
       \<and> statuses trace =
           [Parsing, Initializing, Running, Failed, Retrying, Initializing, Running]
       \<and> count_list (statuses trace) Retrying = 1
       \<and> Done \<notin> set (statuses trace)"
  unfolding execute_def
  apply (subst attempt_loop.simps)
  apply (simp add: run_attempt_def total_tasks_def one_task_def Let_def fail_then_succeed_def
      default_cancel_on_def default_retry_on_def)
  apply (subst attempt_loop.simps)
  apply (simp add: run_attempt_def total_tasks_def one_task_def Let_def fail_then_succeed_def
      statuses_append statuses_simps)
  done

theorem cancellation_is_terminal_witness:
  "\<exists>trace. execute default_cancel_on default_retry_on False cancel_first 3
              = Some (trace, Inl JobCancelledError, 1)
       \<and> statuses trace = [Parsing, Initializing, Running, Cancelled]
       \<and> cancelled_once default_cancel_on (trace, Inl JobCancelledError, 1)"
proof -
  have pre: "(3::int) + 1 \<noteq> 0 \<and> total_tasks False (cancel_first (Suc 0)) \<noteq> 0
      \<and> raises (cancel_first (Suc 0)) = Some JobCancelledError
      \<and> default_cancel_on JobCancelledError"
    by (simp add: total_tasks_def cancel_first_def one_task_def default_cancel_on_def)
  note inst = cancellation_is_terminal
      [of 3 False cancel_first 0 JobCancelledError default_cancel_on default_retry_on
          "[notify (Some Parsing) None None None]"]
  from inst pre obtain evs where
    run: "attempt_loop default_cancel_on default_retry_on False cancel_first 3 0
            [notify (Some Parsing) None None None]
          = Some ([notify (Some Parsing) None None None] @ evs, Inl JobCancelledError, Suc 0)"
    and st: "statuses evs = [Initializing, Running, Cancelled]"
    by blast
  let ?trace = "[notify (Some Parsing) None None None] @ evs"
  have e: "execute default_cancel_on default_retry_on False cancel_first 3
             = Some (?trace, Inl JobCancelledError, 1)"
    using run by (simp add: execute_def)
  with inst have "cancelled_once default_cancel_on (?trace, Inl JobCancelledError, 1)"
    by blast
  moreover have "statuses ?trace = [Parsing, Initializing, Running, Cancelled]"
    by (simp add: statuses_append statuses_simps st)
  ultimately show ?thesis using e by blast
qed

end
